theory Spec2Isabelle
  imports Main
begin

section \<open>Shared vocabulary\<close>

text \<open>
  A JavaScript string is a sequence of UTF-16 code units. The delimiters of the braket
  package (U+2225, U+27E8, ...) lie outside ASCII, so text is a list of code units.
  Identifiers of the program itself (item kinds, node kinds, attribute names) are ASCII
  and stay Isabelle strings.
\<close>

type_synonym jsstring = "nat list"

text \<open>
  The only exception the modelled code can raise by itself: iterating over
  \<^verbatim>\<open>nodes[N]\<close> when that entry is \<^verbatim>\<open>undefined\<close>.
\<close>

datatype error = TypeError

section \<open>HTMLDocument: locating a delimiter in the DOM\<close>

text \<open>
  \<^verbatim>\<open>HTMLNodeArray<N, T> = [N | T, number][][]\<close>: per searched string, the list of
  (node, text length) pairs of the text nodes that make it up. A text length is a natural
  number; offsets into a string are modelled as integers.
\<close>

type_synonym 'n HTMLNodeArray = "('n \<times> nat) list list"

text \<open>\<^verbatim>\<open>Location\<close>: \<^verbatim>\<open>{node, n, delim}\<close>; \<^verbatim>\<open>node: null\<close> is \<open>None\<close>.\<close>

record 'n Location =
  loc_node :: "'n option"
  loc_n :: int
  loc_delim :: jsstring

text \<open>
  The body of the \<^verbatim>\<open>for (const list of nodes[N])\<close> loop of
  \<^verbatim>\<open>findPosition\<close>, with the fall-through \<^verbatim>\<open>return\<close> as the empty case.
\<close>

fun findPosition_loop :: "int \<Rightarrow> jsstring \<Rightarrow> ('n \<times> nat) list \<Rightarrow> 'n Location" where
  "findPosition_loop index delim [] = \<lparr>loc_node = None, loc_n = 0, loc_delim = delim\<rparr>"
| "findPosition_loop index delim ((node, n) # rest) =
     (if index \<le> int n
      then \<lparr>loc_node = Some node, loc_n = index, loc_delim = delim\<rparr>
      else findPosition_loop (index - int n) delim rest)"

text \<open>
  \<^verbatim>\<open>findPosition(N, index, delim, nodes)\<close>. When \<^verbatim>\<open>N\<close> is no index of
  \<^verbatim>\<open>nodes\<close>, \<^verbatim>\<open>nodes[N]\<close> is \<^verbatim>\<open>undefined\<close> and the \<^verbatim>\<open>for ... of\<close>
  raises a TypeError.
\<close>

definition findPosition ::
  "int \<Rightarrow> int \<Rightarrow> jsstring \<Rightarrow> 'n HTMLNodeArray \<Rightarrow> error + 'n Location" where
  "findPosition N index delim nodes =
     (if 0 \<le> N \<and> N < int (length nodes)
      then Inr (findPosition_loop index delim (nodes ! nat N))
      else Inl TypeError)"

text \<open>The summed text length of the first \<open>i\<close> runs of a run list.\<close>

definition precedingLength :: "nat \<Rightarrow> ('n \<times> nat) list \<Rightarrow> int" where
  "precedingLength i runs = int (sum_list (map snd (take i runs)))"

text \<open>The summed text length of a whole run list: the length of the string it makes up.\<close>

definition totalLength :: "('n \<times> nat) list \<Rightarrow> int" where
  "totalLength runs = int (sum_list (map snd runs))"

section \<open>HTMLDocument: finding the math and removing it again\<close>

text \<open>
  \<^verbatim>\<open>ProtoItem\<close> and \<^verbatim>\<open>HTMLMathItem\<close> with the fields the document reads and
  writes. For a jax that searches strings, \<open>pi_n\<close> is the index of the string and the
  \<open>loc_n\<close> of \<open>pi_start\<close> and \<open>pi_end\<close> are offsets into it; a jax that searches the
  DOM reports finished Locations. A math item refers to its jax by name.
\<close>

record 'n ProtoItem =
  pi_math :: jsstring
  pi_start :: "'n Location"
  pi_end :: "'n Location"
  pi_open :: jsstring
  pi_close :: jsstring
  pi_n :: int
  pi_display :: bool

record 'n MathItem =
  mi_math :: jsstring
  mi_jax :: string
  mi_display :: bool
  mi_start :: "'n Location"
  mi_end :: "'n Location"
  mi_state :: int

text \<open>
  \<^verbatim>\<open>AbstractMathDocument.STATE\<close> is declared outside the two source files: the
  numbers of the lifecycle states are a parameter of the model.
\<close>

record STATE =
  UNPROCESSED :: int
  COMPILED :: int
  TYPESET :: int
  INSERTED :: int

text \<open>
  The \<^verbatim>\<open>InputJax\<close> interface, as far as \<^verbatim>\<open>findMath\<close> uses it. Its
  \<^verbatim>\<open>findMath(which: N | string[])\<close> takes a container (\<open>Inl\<close>) or the array of
  strings (\<open>Inr\<close>).
\<close>

record 'n InputJax =
  jax_name :: string
  jax_processStrings :: bool
  jax_findMath :: "'n + jsstring list \<Rightarrow> 'n ProtoItem list"

text \<open>
  The collaborators of \<^verbatim>\<open>findMath\<close> whose code is elsewhere, as parameters:
  \<open>getContainers\<close> stands for
  \<^verbatim>\<open>adaptor.getElements(userOptions({elements: [body]}, options)['elements'], document)\<close>,
  \<open>domStrings_find\<close> for \<^verbatim>\<open>this.domStrings.find\<close> and \<open>mathList_merge\<close> for
  \<^verbatim>\<open>this.math.merge\<close>.
\<close>

record ('n, 'o) Collaborators =
  getContainers :: "'o \<Rightarrow> 'n list"
  domStrings_find :: "'n \<Rightarrow> jsstring list \<times> 'n HTMLNodeArray"
  mathList_merge :: "'n MathItem list \<Rightarrow> 'n MathItem list \<Rightarrow> 'n MathItem list"

text \<open>A call that \<^verbatim>\<open>findMath\<close> makes to a collaborator.\<close>

datatype 'n call =
  DomStringsFind 'n
| JaxFindMath string "'n + jsstring list"

text \<open>
  The state of an \<^verbatim>\<open>HTMLDocument\<close> that the modelled methods touch. \<open>calls\<close> is a
  ghost field: the calls made to the string extractor and to the input jax so far, in
  program order.
\<close>

record 'n HTMLDocument =
  processed_findMath :: bool
  processed_updateDocument :: bool
  mathList :: "'n MathItem list"
  inputJax :: "'n InputJax list"
  calls :: "'n call list"

text \<open>
  Modelled from the spec: the class \<^verbatim>\<open>HTMLMathItem\<close> is not in the source files. A
  Match is "(content, source, displayMode, startPosition, endPosition, renderState)", its
  lifecycle starting at UNPROCESSED; \<^verbatim>\<open>new HTMLMathItem(math, jax, display, start, end)\<close>
  fills the first five from its arguments.
\<close>

definition HTMLMathItem ::
  "STATE \<Rightarrow> jsstring \<Rightarrow> 'n InputJax \<Rightarrow> bool \<Rightarrow> 'n Location \<Rightarrow> 'n Location \<Rightarrow> 'n MathItem" where
  "HTMLMathItem st math jax display start end =
     \<lparr>mi_math = math, mi_jax = jax_name jax, mi_display = display,
      mi_start = start, mi_end = end, mi_state = UNPROCESSED st\<rparr>"

text \<open>\<^verbatim>\<open>mathItem(item, jax, nodes)\<close>: an exception of \<^verbatim>\<open>findPosition\<close> passes through.\<close>

definition mathItem ::
  "STATE \<Rightarrow> 'n ProtoItem \<Rightarrow> 'n InputJax \<Rightarrow> 'n HTMLNodeArray \<Rightarrow> error + 'n MathItem" where
  "mathItem st item jax nodes =
     (case findPosition (pi_n item) (loc_n (pi_start item)) (pi_open item) nodes of
        Inl e \<Rightarrow> Inl e
      | Inr start \<Rightarrow>
          (case findPosition (pi_n item) (loc_n (pi_end item)) (pi_close item) nodes of
             Inl e \<Rightarrow> Inl e
           | Inr end \<Rightarrow> Inr (HTMLMathItem st (pi_math item) jax (pi_display item) start end)))"

text \<open>
  \<^verbatim>\<open>for (const math of jax.findMath(strings)) list.push(this.mathItem(math, jax, nodes))\<close>
\<close>

fun mathItems ::
  "STATE \<Rightarrow> 'n ProtoItem list \<Rightarrow> 'n InputJax \<Rightarrow> 'n HTMLNodeArray \<Rightarrow> error + 'n MathItem list" where
  "mathItems st [] jax nodes = Inr []"
| "mathItems st (math # rest) jax nodes =
     (case mathItem st math jax nodes of
        Inl e \<Rightarrow> Inl e
      | Inr item \<Rightarrow>
          (case mathItems st rest jax nodes of
             Inl e \<Rightarrow> Inl e
           | Inr items \<Rightarrow> Inr (item # items)))"

text \<open>
  \<^verbatim>\<open>for (const math of jax.findMath(container))\<close>: the items of a jax that searches the
  DOM, with the Locations the jax reports.
\<close>

definition domItems :: "STATE \<Rightarrow> 'n ProtoItem list \<Rightarrow> 'n InputJax \<Rightarrow> 'n MathItem list" where
  "domItems st found jax =
     map (\<lambda>math. HTMLMathItem st (pi_math math) jax (pi_display math) (pi_start math) (pi_end math))
       found"

text \<open>
  \<^verbatim>\<open>if (strings === null) [strings, nodes] = this.domStrings.find(container)\<close>: the pair
  \<^verbatim>\<open>[strings, nodes]\<close> of the current container is \<open>None\<close> while both are
  \<^verbatim>\<open>null\<close>.
\<close>

definition extractStrings ::
  "('n, 'o) Collaborators \<Rightarrow> 'n \<Rightarrow> (jsstring list \<times> 'n HTMLNodeArray) option \<Rightarrow>
   'n HTMLDocument \<Rightarrow> (jsstring list \<times> 'n HTMLNodeArray) \<times> 'n HTMLDocument" where
  "extractStrings env container cache doc =
     (case cache of
        None \<Rightarrow> (domStrings_find env container,
                 doc\<lparr>calls := calls doc @ [DomStringsFind container]\<rparr>)
      | Some found \<Rightarrow> (found, doc))"

text \<open>
  The loop \<^verbatim>\<open>for (const jax of this.inputJax)\<close> for one container. An exception leaves
  the loop with the document as it is at that moment (\<open>Inl\<close>).
\<close>

fun findMath_jaxes ::
  "('n, 'o) Collaborators \<Rightarrow> STATE \<Rightarrow> 'n \<Rightarrow> 'n InputJax list \<Rightarrow>
   (jsstring list \<times> 'n HTMLNodeArray) option \<Rightarrow> 'n HTMLDocument \<Rightarrow>
   (error \<times> 'n HTMLDocument) + 'n HTMLDocument" where
  "findMath_jaxes env st container [] cache doc = Inr doc"
| "findMath_jaxes env st container (jax # rest) cache doc =
     (if jax_processStrings jax then
        (case extractStrings env container cache doc of
           ((strings, nodes), doc1) \<Rightarrow>
             (case mathItems st (jax_findMath jax (Inr strings)) jax nodes of
                Inl e \<Rightarrow>
                  Inl (e, doc1\<lparr>calls := calls doc1 @ [JaxFindMath (jax_name jax) (Inr strings)]\<rparr>)
              | Inr list \<Rightarrow>
                  findMath_jaxes env st container rest (Some (strings, nodes))
                    (doc1\<lparr>calls := calls doc1 @ [JaxFindMath (jax_name jax) (Inr strings)],
                          mathList := mathList_merge env (mathList doc1) list\<rparr>)))
      else
        findMath_jaxes env st container rest cache
          (doc\<lparr>calls := calls doc @ [JaxFindMath (jax_name jax) (Inl container)],
                mathList := mathList_merge env (mathList doc)
                  (domItems st (jax_findMath jax (Inl container)) jax)\<rparr>))"

text \<open>The loop over the containers; each starts with \<^verbatim>\<open>[strings, nodes] = [null, null]\<close>.\<close>

fun findMath_containers ::
  "('n, 'o) Collaborators \<Rightarrow> STATE \<Rightarrow> 'n list \<Rightarrow> 'n HTMLDocument \<Rightarrow>
   (error \<times> 'n HTMLDocument) + 'n HTMLDocument" where
  "findMath_containers env st [] doc = Inr doc"
| "findMath_containers env st (container # rest) doc =
     (case findMath_jaxes env st container (inputJax doc) None doc of
        Inl failed \<Rightarrow> Inl failed
      | Inr doc1 \<Rightarrow> findMath_containers env st rest doc1)"

text \<open>\<^verbatim>\<open>findMath(options)\<close>\<close>

definition findMath ::
  "('n, 'o) Collaborators \<Rightarrow> STATE \<Rightarrow> 'o \<Rightarrow> 'n HTMLDocument \<Rightarrow>
   (error \<times> 'n HTMLDocument) + 'n HTMLDocument" where
  "findMath env st options doc =
     (if \<not> processed_findMath doc then
        (case findMath_containers env st (getContainers env options) doc of
           Inl failed \<Rightarrow> Inl failed
         | Inr doc1 \<Rightarrow> Inr (doc1\<lparr>processed_findMath := True\<rparr>))
      else Inr doc)"

text \<open>The document a call leaves behind, whether it returned or raised.\<close>

definition documentAfter :: "(error \<times> 'n HTMLDocument) + 'n HTMLDocument \<Rightarrow> 'n HTMLDocument" where
  "documentAfter result = (case result of Inl (e, doc) \<Rightarrow> doc | Inr doc \<Rightarrow> doc)"

text \<open>The string extractions in a list of calls: the containers they were made for.\<close>

fun extractions :: "'n call list \<Rightarrow> 'n list" where
  "extractions [] = []"
| "extractions (DomStringsFind container # rest) = container # extractions rest"
| "extractions (JaxFindMath name which # rest) = extractions rest"

text \<open>The calls to an input jax in a list of calls, in their order.\<close>

fun jaxCalls :: "'n call list \<Rightarrow> 'n call list" where
  "jaxCalls [] = []"
| "jaxCalls (DomStringsFind container # rest) = jaxCalls rest"
| "jaxCalls (JaxFindMath name which # rest) = JaxFindMath name which # jaxCalls rest"

text \<open>
  What a jax is to be asked for a container: a jax that searches the DOM the container
  itself, a jax that searches strings the strings extracted from the container.
\<close>

definition askedWith :: "('n, 'o) Collaborators \<Rightarrow> 'n \<Rightarrow> 'n InputJax \<Rightarrow> 'n call" where
  "askedWith env container jax =
     JaxFindMath (jax_name jax)
       (if jax_processStrings jax then Inr (fst (domStrings_find env container)) else Inl container)"

text \<open>
  The math items that a jax is to contribute for a container: for a jax that searches
  strings, what it finds in the strings extracted from the container, each located by
  \<^verbatim>\<open>mathItem\<close> in the nodes extracted with them (which may raise); for a jax that searches
  the DOM, what it finds in the container, with the Locations it reports.
\<close>

definition jaxItems ::
  "('n, 'o) Collaborators \<Rightarrow> STATE \<Rightarrow> 'n \<Rightarrow> 'n InputJax \<Rightarrow> error + 'n MathItem list" where
  "jaxItems env st container jax =
     (if jax_processStrings jax
      then mathItems st (jax_findMath jax (Inr (fst (domStrings_find env container)))) jax
             (snd (domStrings_find env container))
      else Inr (domItems st (jax_findMath jax (Inl container)) jax))"

text \<open>
  \<^verbatim>\<open>removeFromDocument(restore)\<close>. The method \<^verbatim>\<open>state\<close> of a math item is outside the
  source files: reading the state is the field \<open>mi_state\<close>, and the call
  \<^verbatim>\<open>math.state(STATE.TYPESET, restore)\<close> is the parameter \<open>state_set\<close>.
\<close>

definition removeFromDocument ::
  "(int \<Rightarrow> bool \<Rightarrow> 'n MathItem \<Rightarrow> 'n MathItem) \<Rightarrow> STATE \<Rightarrow> bool \<Rightarrow>
   'n HTMLDocument \<Rightarrow> 'n HTMLDocument" where
  "removeFromDocument state_set st restore doc =
     (let doc1 =
        (if processed_updateDocument doc
         then doc\<lparr>mathList :=
                map (\<lambda>math. if INSERTED st \<le> mi_state math
                             then state_set (TYPESET st) restore math else math)
                  (mathList doc)\<rparr>
         else doc)
      in doc1\<lparr>processed_updateDocument := False\<rparr>)"

section \<open>The braket package: handlers and the braket stack item\<close>

text \<open>
  \<^verbatim>\<open>TEXCLASS\<close> is declared with the MathML tree, outside the source files: these are the
  members the braket code names.
\<close>

datatype TEXCLASS = ORD | OPEN | CLOSE | INNER

text \<open>An attribute value of an internal MathML node.\<close>

datatype attribute = BoolAttr bool | ClassAttr TEXCLASS | TextAttr jsstring

text \<open>
  What \<^verbatim>\<open>create('token', kind, attributes, text)\<close> and
  \<^verbatim>\<open>create('node', kind, children, attributes)\<close> build: the node factory is outside the
  source files, so a node is the record of the arguments it was created with, the
  attributes in the order the object literal lists them.
\<close>

datatype MmlNode =
  Token string "(string \<times> attribute) list" jsstring
| Node string "MmlNode list" "(string \<times> attribute) list"

text \<open>
  A \<^verbatim>\<open>number\<close> that bounds a count: the handler's \<^verbatim>\<open>barmax\<close> may be any integer or
  \<^verbatim>\<open>Infinity\<close>.
\<close>

datatype number = Finite int | Infinity

text \<open>\<^verbatim>\<open>count >= max\<close> for an integer count.\<close>

fun reaches :: "int \<Rightarrow> number \<Rightarrow> bool" where
  "reaches count (Finite m) = (m \<le> count)"
| "reaches count Infinity = False"

text \<open>
  A stack item: its kind, the five properties that \<^verbatim>\<open>Braket\<close> stamps on a braket item
  (typed as the handler's signature types them; \<open>prop_open\<close> and \<open>prop_close\<close> are the
  properties \<^verbatim>\<open>open\<close> and \<^verbatim>\<open>close\<close>), and the nodes it has collected. On an item of
  another kind the code never reads the five properties.
\<close>

record StackItem =
  kind :: string
  barmax :: number
  barcount :: int
  prop_open :: jsstring
  prop_close :: jsstring
  stretchy :: bool
  childNodes :: "MmlNode list"


text \<open>
  What a handler does to the parser, in program order: a node or an item handed to
  \<^verbatim>\<open>parser.Push\<close>, or \<^verbatim>\<open>setProperty\<close> on the top item.
\<close>

datatype action =
  PushNode MmlNode
| PushItem StackItem
| SetProperty string int

text \<open>
  The state of a \<^verbatim>\<open>TexParser\<close> that the braket handlers touch: the input, the cursor
  \<^verbatim>\<open>i\<close>, and the stack, which always holds a bottom item and so is a top item with the
  items below it. \<open>actions\<close> is a ghost field, the actions of the handlers so far.
\<close>

record TexParser =
  parser_string :: jsstring
  parser_i :: nat
  stack_top :: StackItem
  stack_below :: "StackItem list"
  actions :: "action list"

text \<open>
  Modelled from the spec: \<^verbatim>\<open>TexParser.Push\<close> and the stack behind it are not in the
  source files. On receiving an item the current frame decides by its own transition: it
  may finalize and pop itself, its subtree going to the frame below, or absorb a finished
  subtree "into childNodes" while "processing continues" (the frame stays open, nothing is
  pushed on the stack). For a braket frame the source gives the transition
  (\<^verbatim>\<open>BraketItem.checkItem\<close> for an \<^verbatim>\<open>mml\<close> item): the frame takes the node among its
  own. For a frame of any other kind the transition is code outside the source files, and
  what it makes of the stack is the parameter \<open>react\<close>: from the node, the top item and the
  items below, the top item and the items below afterwards.
\<close>

definition Push_node ::
  "(MmlNode \<Rightarrow> StackItem \<Rightarrow> StackItem list \<Rightarrow> StackItem \<times> StackItem list) \<Rightarrow>
   MmlNode \<Rightarrow> TexParser \<Rightarrow> TexParser" where
  "Push_node react node parser =
     (if kind (stack_top parser) = ''braket'' then
        parser\<lparr>stack_top := (stack_top parser)\<lparr>childNodes := childNodes (stack_top parser) @ [node]\<rparr>,
               actions := actions parser @ [PushNode node]\<rparr>
      else
        parser\<lparr>stack_top := fst (react node (stack_top parser) (stack_below parser)),
               stack_below := snd (react node (stack_top parser) (stack_below parser)),
               actions := actions parser @ [PushNode node]\<rparr>)"

text \<open>
  Modelled from the spec: \<^verbatim>\<open>TexParser.Push\<close> for the item of an opening handler, which
  is not in the source files either: "pushes a new frame", which becomes the current one.
\<close>

definition Push_item :: "StackItem \<Rightarrow> TexParser \<Rightarrow> TexParser" where
  "Push_item item parser =
     parser\<lparr>stack_top := item, stack_below := stack_top parser # stack_below parser,
            actions := actions parser @ [PushItem item]\<rparr>"

text \<open>\<^verbatim>\<open>top.setProperty('barcount', value)\<close> on the top item of the stack.\<close>

definition setProperty_barcount :: "int \<Rightarrow> TexParser \<Rightarrow> TexParser" where
  "setProperty_barcount v parser =
     parser\<lparr>stack_top := (stack_top parser)\<lparr>barcount := v\<rparr>,
            actions := actions parser @ [SetProperty ''barcount'' v]\<rparr>"

text \<open>The code units of \<^verbatim>\<open>'|'\<close> and the double bar U+2225.\<close>

definition bar :: jsstring where
  "bar = [124]"

definition doubleBar :: jsstring where
  "doubleBar = [8741]"

text \<open>
  \<^verbatim>\<open>BraketMethods.Braket(parser, name, open, close, stretchy, barmax)\<close>; the item that
  \<^verbatim>\<open>itemFactory.create('braket')\<close> gives has collected no nodes.
\<close>

definition Braket ::
  "TexParser \<Rightarrow> jsstring \<Rightarrow> jsstring \<Rightarrow> jsstring \<Rightarrow> bool \<Rightarrow> number \<Rightarrow> TexParser" where
  "Braket parser name opn cls str bmax =
     Push_item
       \<lparr>kind = ''braket'', barmax = bmax, barcount = 0, prop_open = opn, prop_close = cls,
        stretchy = str, childNodes = []\<rparr>
       (parser\<lparr>parser_i := parser_i parser + 1\<rparr>)"

text \<open>
  \<^verbatim>\<open>BraketMethods.Bar(parser, name)\<close>. \<^verbatim>\<open>TexParser.GetNext\<close> is not in the source
  files and is a parameter: from the input and the cursor it gives the next character and
  the cursor it leaves. Past the fallback \<^verbatim>\<open>top\<close> is a braket item, which absorbs the
  nodes pushed, so it is the object on top of the stack throughout.
\<close>

definition Bar ::
  "(jsstring \<Rightarrow> nat \<Rightarrow> jsstring \<times> nat) \<Rightarrow>
   (MmlNode \<Rightarrow> StackItem \<Rightarrow> StackItem list \<Rightarrow> StackItem \<times> StackItem list) \<Rightarrow>
   TexParser \<Rightarrow> jsstring \<Rightarrow> TexParser" where
  "Bar GetNext react parser name =
     (let c = (if name = bar then bar else doubleBar);
          top = stack_top parser
      in if kind top \<noteq> ''braket'' \<or> reaches (barcount top) (barmax top) then
           Push_node react (Token ''mo'' [(''texClass'', ClassAttr ORD), (''stretchy'', BoolAttr False)] c)
             parser
         else
           let next = GetNext (parser_string parser) (parser_i parser);
               parser1 = (if c = bar then parser\<lparr>parser_i := snd next\<rparr> else parser);
               double = (c = bar \<and> fst next = bar);
               parser2 = (if double then parser1\<lparr>parser_i := parser_i parser1 + 1\<rparr> else parser1);
               c2 = (if double then doubleBar else c)
           in if \<not> stretchy (stack_top parser2) then
                Push_node react
                  (Token ''mo'' [(''stretchy'', BoolAttr False), (''braketbar'', BoolAttr True)] c2)
                  parser2
              else
                let parser3 = Push_node react (Node ''TeXAtom'' [] [(''texClass'', ClassAttr CLOSE)]) parser2;
                    parser4 = setProperty_barcount (barcount (stack_top parser3) + 1) parser3;
                    parser5 = Push_node react
                      (Token ''mo'' [(''stretchy'', BoolAttr True), (''braketbar'', BoolAttr True)] c2)
                      parser4
                in Push_node react (Node ''TeXAtom'' [] [(''texClass'', ClassAttr OPEN)]) parser5)"

text \<open>
  \<^verbatim>\<open>factory.create('mml', node)\<close>: an item of kind \<^verbatim>\<open>mml\<close> that holds the node; the
  braket properties are not set on it.
\<close>

definition mmlItem :: "MmlNode \<Rightarrow> StackItem" where
  "mmlItem node =
     \<lparr>kind = ''mml'', barmax = Finite 0, barcount = 0, prop_open = [], prop_close = [],
      stretchy = False, childNodes = [node]\<rparr>"

text \<open>
  \<^verbatim>\<open>BraketItem.toMml()\<close>. \<^verbatim>\<open>ParseUtil.fenced\<close> (without its configuration argument)
  and the inherited \<^verbatim>\<open>BaseItem.toMml\<close> are not in the source files and are parameters.
\<close>

definition toMml ::
  "(jsstring \<Rightarrow> MmlNode \<Rightarrow> jsstring \<Rightarrow> MmlNode) \<Rightarrow> (StackItem \<Rightarrow> MmlNode) \<Rightarrow> StackItem \<Rightarrow> MmlNode" where
  "toMml fenced super_toMml this =
     (let inner = super_toMml this;
          opn = prop_open this;
          cls = prop_close this
      in if stretchy this then fenced opn inner cls
         else
           let attrs = [(''fence'', BoolAttr True), (''stretchy'', BoolAttr False),
                        (''symmetric'', BoolAttr True), (''texClass'', ClassAttr OPEN)];
               openNode = Token ''mo'' attrs opn;
               closeNode = Token ''mo'' attrs cls
           in Node ''mrow'' [openNode, inner, closeNode]
                [(''open'', TextAttr opn), (''close'', TextAttr cls), (''texClass'', ClassAttr INNER)])"

text \<open>
  \<^verbatim>\<open>BraketItem.checkItem(item)\<close>: the item afterwards (an \<^verbatim>\<open>mml\<close> item's node is added
  to it) and the \<^verbatim>\<open>CheckType\<close> pair, \<^verbatim>\<open>null\<close> being \<open>None\<close>. The inherited
  \<^verbatim>\<open>BaseItem.checkItem\<close> is not in the source files and is a parameter; an \<^verbatim>\<open>mml\<close>
  item answers \<^verbatim>\<open>toMml()\<close> with the inherited method.
\<close>

definition checkItem ::
  "(jsstring \<Rightarrow> MmlNode \<Rightarrow> jsstring \<Rightarrow> MmlNode) \<Rightarrow> (StackItem \<Rightarrow> MmlNode) \<Rightarrow>
   (StackItem \<Rightarrow> StackItem \<Rightarrow> StackItem \<times> StackItem list option \<times> bool) \<Rightarrow>
   StackItem \<Rightarrow> StackItem \<Rightarrow> StackItem \<times> StackItem list option \<times> bool" where
  "checkItem fenced super_toMml super_checkItem this item =
     (if kind item = ''close'' then
        (let node = toMml fenced super_toMml this
         in (this, Some [mmlItem node], True))
      else if kind item = ''mml'' then
        (this\<lparr>childNodes := childNodes this @ [super_toMml item]\<rparr>, None, False)
      else super_checkItem this item)"

text \<open>The value of an attribute in an attribute list.\<close>

definition attributeOf :: "string \<Rightarrow> (string \<times> attribute) list \<Rightarrow> attribute option" where
  "attributeOf name attrs = map_of attrs name"

text \<open>
  The character \<^verbatim>\<open>c\<close> that \<^verbatim>\<open>Bar\<close> has after its test for a second bar, past
  the fallback: a double bar unless the handler runs for a single \<^verbatim>\<open>|\<close> that no
  \<^verbatim>\<open>|\<close> follows.
\<close>

definition emitted :: "(jsstring \<Rightarrow> nat \<Rightarrow> jsstring \<times> nat) \<Rightarrow> TexParser \<Rightarrow> jsstring \<Rightarrow> jsstring" where
  "emitted GetNext parser name =
     (if name = bar \<and> fst (GetNext (parser_string parser) (parser_i parser)) \<noteq> bar
      then bar else doubleBar)"

text \<open>The cursor \<^verbatim>\<open>parser.i\<close> that \<^verbatim>\<open>Bar\<close> has after the same test.\<close>

definition cursorAfter :: "(jsstring \<Rightarrow> nat \<Rightarrow> jsstring \<times> nat) \<Rightarrow> TexParser \<Rightarrow> jsstring \<Rightarrow> nat" where
  "cursorAfter GetNext parser name =
     (if name = bar
      then (if fst (GetNext (parser_string parser) (parser_i parser)) = bar
            then snd (GetNext (parser_string parser) (parser_i parser)) + 1
            else snd (GetNext (parser_string parser) (parser_i parser)))
      else parser_i parser)"

section \<open>Example inputs\<close>

text \<open>
  A document with one container, a jax that searches strings and one that searches the
  DOM; the same document after rendering, with its one math item inserted.
\<close>

definition exampleSTATE :: STATE where
  "exampleSTATE = \<lparr>UNPROCESSED = 0, COMPILED = 1, TYPESET = 2, INSERTED = 3\<rparr>"

definition exampleTeX :: "nat InputJax" where
  "exampleTeX =
     \<lparr>jax_name = ''TeX'', jax_processStrings = True,
      jax_findMath = (\<lambda>which. case which of
          Inl container \<Rightarrow> []
        | Inr strings \<Rightarrow>
            [\<lparr>pi_math = [120],
              pi_start = \<lparr>loc_node = None, loc_n = 0, loc_delim = []\<rparr>,
              pi_end = \<lparr>loc_node = None, loc_n = 3, loc_delim = []\<rparr>,
              pi_open = [36], pi_close = [36], pi_n = 0, pi_display = False\<rparr>])\<rparr>"

definition exampleMathML :: "nat InputJax" where
  "exampleMathML =
     \<lparr>jax_name = ''MathML'', jax_processStrings = False, jax_findMath = (\<lambda>which. [])\<rparr>"

definition exampleCollaborators :: "(nat, unit) Collaborators" where
  "exampleCollaborators =
     \<lparr>getContainers = (\<lambda>options. [7]),
      domStrings_find = (\<lambda>container. ([[36, 120, 36]], [[(container, 3)]])),
      mathList_merge = (\<lambda>old new. old @ new)\<rparr>"

definition exampleDocument :: "nat HTMLDocument" where
  "exampleDocument =
     \<lparr>processed_findMath = False, processed_updateDocument = False, mathList = [],
      inputJax = [exampleTeX, exampleMathML], calls = []\<rparr>"

definition exampleRendered :: "nat HTMLDocument" where
  "exampleRendered =
     \<lparr>processed_findMath = True, processed_updateDocument = True,
      mathList =
        [\<lparr>mi_math = [120], mi_jax = ''TeX'', mi_display = False,
          mi_start = \<lparr>loc_node = Some 7, loc_n = 0, loc_delim = [36]\<rparr>,
          mi_end = \<lparr>loc_node = Some 7, loc_n = 3, loc_delim = [36]\<rparr>,
          mi_state = 3\<rparr>],
      inputJax = [exampleTeX, exampleMathML], calls = []\<rparr>"

definition exampleStateSetter :: "int \<Rightarrow> bool \<Rightarrow> nat MathItem \<Rightarrow> nat MathItem" where
  "exampleStateSetter state restore math = math\<lparr>mi_state := state\<rparr>"

text \<open>
  A parser on the input \<^verbatim>\<open>{x|y||z}\<close> with only the bottom item on its stack, and the
  same parser inside a braket item with \<^verbatim>\<open>barmax = 1\<close>, the cursor at \<open>i\<close>;
  \<open>exampleFull\<close> is that parser once the one bar has been counted.
\<close>

definition exampleGetNext :: "jsstring \<Rightarrow> nat \<Rightarrow> jsstring \<times> nat" where
  "exampleGetNext input i = (take 1 (drop i input), i)"

definition exampleBottom :: StackItem where
  "exampleBottom =
     \<lparr>kind = ''start'', barmax = Finite 0, barcount = 0, prop_open = [], prop_close = [],
      stretchy = False, childNodes = []\<rparr>"

definition exampleParser :: TexParser where
  "exampleParser =
     \<lparr>parser_string = [123, 120, 124, 121, 124, 124, 122, 125], parser_i = 0,
      stack_top = exampleBottom, stack_below = [], actions = []\<rparr>"

definition exampleSet :: "bool \<Rightarrow> nat \<Rightarrow> TexParser" where
  "exampleSet str i = (Braket exampleParser [] [123] [125] str (Finite 1))\<lparr>parser_i := i\<rparr>"

definition exampleFull :: TexParser where
  "exampleFull = (exampleSet True 5)\<lparr>stack_top := (stack_top (exampleSet True 5))\<lparr>barcount := 1\<rparr>\<rparr>"

text \<open>
  Two reactions of a frame of another kind to a node: a frame that absorbs it, as the bottom
  frame does, and a frame that finalizes on it, as the frame of a subscript or superscript
  does: it pops itself, and its subtree, completed by the node, goes to the frame below.
  The parser \<open>exampleSubsup\<close> has such a frame above the bottom item.
\<close>

definition exampleAbsorb :: "MmlNode \<Rightarrow> StackItem \<Rightarrow> StackItem list \<Rightarrow> StackItem \<times> StackItem list" where
  "exampleAbsorb node frame below = (frame\<lparr>childNodes := childNodes frame @ [node]\<rparr>, below)"

definition exampleClosing :: "MmlNode \<Rightarrow> StackItem \<Rightarrow> StackItem list \<Rightarrow> StackItem \<times> StackItem list" where
  "exampleClosing node frame below =
     (case below of
        [] \<Rightarrow> (frame\<lparr>childNodes := childNodes frame @ [node]\<rparr>, [])
      | lower # rest \<Rightarrow>
          (lower\<lparr>childNodes := childNodes lower @ [Node ''msubsup'' (childNodes frame @ [node]) []]\<rparr>,
           rest))"

definition exampleSubsup :: TexParser where
  "exampleSubsup =
     \<lparr>parser_string = [120, 94, 124], parser_i = 3,
      stack_top = exampleBottom\<lparr>kind := ''subsup'', childNodes := [Token ''mi'' [] [120]]\<rparr>,
      stack_below = [exampleBottom], actions = []\<rparr>"

definition exampleFenced :: "jsstring \<Rightarrow> MmlNode \<Rightarrow> jsstring \<Rightarrow> MmlNode" where
  "exampleFenced opn inner cls =
     Node ''mrow'' [Token ''mo'' [] opn, inner, Token ''mo'' [] cls] []"

definition exampleToMml :: "StackItem \<Rightarrow> MmlNode" where
  "exampleToMml item = Node ''inferredMrow'' (childNodes item) []"

definition exampleCheckItem :: "StackItem \<Rightarrow> StackItem \<Rightarrow> StackItem \<times> StackItem list option \<times> bool" where
  "exampleCheckItem this item = (this, None, True)"

section \<open>Properties of findPosition\<close>

lemma precedingLength_0 [simp]: "precedingLength 0 runs = 0"
  by (simp add: precedingLength_def)

lemma precedingLength_Suc [simp]:
  "precedingLength (Suc i) ((node, n) # rest) = int n + precedingLength i rest"
  by (simp add: precedingLength_def)

lemma totalLength_Nil [simp]: "totalLength [] = 0"
  by (simp add: totalLength_def)

lemma totalLength_Cons [simp]: "totalLength ((node, n) # rest) = int n + totalLength rest"
  by (simp add: totalLength_def)

lemma totalLength_nonneg: "0 \<le> totalLength runs"
  by (simp add: totalLength_def)

text \<open>The scan stops at the first run that the remaining offset fits into.\<close>

lemma findPosition_loop_hit:
  "i < length runs \<Longrightarrow>
   (\<forall>j<i. int (snd (runs ! j)) < index - precedingLength j runs) \<Longrightarrow>
   index - precedingLength i runs \<le> int (snd (runs ! i)) \<Longrightarrow>
   findPosition_loop index delim runs =
     \<lparr>loc_node = Some (fst (runs ! i)), loc_n = index - precedingLength i runs,
      loc_delim = delim\<rparr>"
proof (induction runs arbitrary: index i)
  case Nil
  then show ?case by simp
next
  case (Cons r rest)
  obtain node n where r: "r = (node, n)" by (cases r)
  show ?case
  proof (cases i)
    case 0
    with Cons.prems r show ?thesis by simp
  next
    case (Suc k)
    from Cons.prems(2) Suc have first: "int n < index"
      using r by (auto dest: spec [of _ 0])
    have k: "k < length rest" using Cons.prems(1) Suc by simp
    have before: "\<forall>j<k. int (snd (rest ! j)) < (index - int n) - precedingLength j rest"
    proof (intro allI impI)
      fix j assume "j < k"
      then have "Suc j < i" using Suc by simp
      with Cons.prems(2) have "int (snd ((r # rest) ! Suc j)) < index - precedingLength (Suc j) (r # rest)"
        by blast
      then show "int (snd (rest ! j)) < (index - int n) - precedingLength j rest"
        using r by simp
    qed
    have fit: "(index - int n) - precedingLength k rest \<le> int (snd (rest ! k))"
      using Cons.prems(3) Suc r by simp
    from Cons.IH [OF k before fit] first r Suc show ?thesis by simp
  qed
qed

text \<open>When the remaining offset fits no run, the scan falls through.\<close>

lemma findPosition_loop_miss:
  "(\<forall>j<length runs. int (snd (runs ! j)) < index - precedingLength j runs) \<Longrightarrow>
   findPosition_loop index delim runs = \<lparr>loc_node = None, loc_n = 0, loc_delim = delim\<rparr>"
proof (induction runs arbitrary: index)
  case Nil
  then show ?case by simp
next
  case (Cons r rest)
  obtain node n where r: "r = (node, n)" by (cases r)
  from Cons.prems have first: "int n < index"
    using r by (auto dest: spec [of _ 0])
  have rest: "\<forall>j<length rest. int (snd (rest ! j)) < (index - int n) - precedingLength j rest"
  proof (intro allI impI)
    fix j assume "j < length rest"
    then have "Suc j < length (r # rest)" by simp
    with Cons.prems have "int (snd ((r # rest) ! Suc j)) < index - precedingLength (Suc j) (r # rest)"
      by blast
    then show "int (snd (rest ! j)) < (index - int n) - precedingLength j rest"
      using r by simp
  qed
  from Cons.IH [OF rest] first r show ?case by simp
qed

text \<open>
  C1. For a node array \<open>nodes\<close> and a string index \<open>N\<close> of it, \<open>findPosition\<close> raises
  nothing and returns the Location of the first run of \<open>nodes[N]\<close> at which the remaining
  offset (the index minus the lengths of the runs before it) is at most the run's length,
  with \<open>n\<close> that remaining offset; an offset on a run's end boundary therefore resolves
  to that run, with \<open>n\<close> its full length. When the remaining offset exceeds the length at
  every run, the degenerate Location with node \<open>null\<close> and \<open>n = 0\<close> is returned.
\<close>

theorem findPosition_first_fit:
  assumes "0 \<le> N" and "N < int (length nodes)"
  shows "(\<forall>i<length (nodes ! nat N).
            (\<forall>j<i. int (snd (nodes ! nat N ! j)) < index - precedingLength j (nodes ! nat N)) \<and>
            index - precedingLength i (nodes ! nat N) \<le> int (snd (nodes ! nat N ! i)) \<longrightarrow>
            findPosition N index delim nodes =
              Inr \<lparr>loc_node = Some (fst (nodes ! nat N ! i)),
                   loc_n = index - precedingLength i (nodes ! nat N), loc_delim = delim\<rparr>) \<and>
         ((\<forall>j<length (nodes ! nat N).
             int (snd (nodes ! nat N ! j)) < index - precedingLength j (nodes ! nat N)) \<longrightarrow>
            findPosition N index delim nodes =
              Inr \<lparr>loc_node = None, loc_n = 0, loc_delim = delim\<rparr>)"
proof (intro conjI allI impI)
  fix i
  assume "i < length (nodes ! nat N)"
    and "(\<forall>j<i. int (snd (nodes ! nat N ! j)) < index - precedingLength j (nodes ! nat N)) \<and>
         index - precedingLength i (nodes ! nat N) \<le> int (snd (nodes ! nat N ! i))"
  then show "findPosition N index delim nodes =
      Inr \<lparr>loc_node = Some (fst (nodes ! nat N ! i)),
           loc_n = index - precedingLength i (nodes ! nat N), loc_delim = delim\<rparr>"
    using assms by (simp add: findPosition_def findPosition_loop_hit)
next
  assume "\<forall>j<length (nodes ! nat N).
     int (snd (nodes ! nat N ! j)) < index - precedingLength j (nodes ! nat N)"
  then show "findPosition N index delim nodes =
      Inr \<lparr>loc_node = None, loc_n = 0, loc_delim = delim\<rparr>"
    using assms by (simp add: findPosition_def findPosition_loop_miss)
qed

theorem findPosition_first_fit_witness:
  "findPosition 0 5 [36] [[(10::nat, 2), (11, 3), (12, 4)]] =
     Inr \<lparr>loc_node = Some 11, loc_n = 3, loc_delim = [36]\<rparr> \<and>
   findPosition 0 10 [36] [[(10::nat, 2), (11, 3), (12, 4)]] =
     Inr \<lparr>loc_node = None, loc_n = 0, loc_delim = [36]\<rparr>"
proof -
  let ?nodes = "[[(10::nat, 2::nat), (11, 3), (12, 4)]]"
  have r: "(0::int) \<le> 0" "(0::int) < int (length ?nodes)" by simp_all
  have a: "findPosition 0 5 [36] ?nodes = Inr \<lparr>loc_node = Some 11, loc_n = 3, loc_delim = [36]\<rparr>"
    using findPosition_first_fit [OF r, of 5 "[36]", THEN conjunct1, rule_format, of 1]
    by (simp add: precedingLength_def)
  have b: "findPosition 0 10 [36] ?nodes = Inr \<lparr>loc_node = None, loc_n = 0, loc_delim = [36]\<rparr>"
    using findPosition_first_fit [OF r, of 10 "[36]", THEN conjunct2]
    by (simp add: precedingLength_def less_Suc_eq numeral_3_eq_3)
  from a b show ?thesis by simp
qed

text \<open>
  Within the string (an offset between 0 and the summed length of a non-empty run list)
  the scan always stops at a run, and the offset it reports lies within that run.
\<close>

lemma findPosition_loop_in_range:
  "runs \<noteq> [] \<Longrightarrow> 0 \<le> k \<Longrightarrow> k \<le> totalLength runs \<Longrightarrow>
   \<exists>i<length runs.
      findPosition_loop k delim runs =
        \<lparr>loc_node = Some (fst (runs ! i)), loc_n = k - precedingLength i runs, loc_delim = delim\<rparr> \<and>
      0 \<le> k - precedingLength i runs \<and> k - precedingLength i runs \<le> int (snd (runs ! i))"
proof (induction runs arbitrary: k)
  case Nil
  then show ?case by simp
next
  case (Cons r rest)
  obtain node n where r: "r = (node, n)" by (cases r)
  show ?case
  proof (cases "k \<le> int n")
    case True
    with Cons.prems r show ?thesis by (intro exI [of _ 0]) simp
  next
    case False
    then have pos: "0 \<le> k - int n" by simp
    have le: "k - int n \<le> totalLength rest" using Cons.prems(3) r by simp
    have ne: "rest \<noteq> []" using False le by auto
    from Cons.IH [OF ne pos le] obtain i where i: "i < length rest"
      and eq: "findPosition_loop (k - int n) delim rest =
        \<lparr>loc_node = Some (fst (rest ! i)), loc_n = (k - int n) - precedingLength i rest, loc_delim = delim\<rparr>"
      and bounds: "0 \<le> (k - int n) - precedingLength i rest"
        "(k - int n) - precedingLength i rest \<le> int (snd (rest ! i))"
      by blast
    show ?thesis
      using i eq bounds False r by (intro exI [of _ "Suc i"]) (simp add: algebra_simps)
  qed
qed

text \<open>Past the end of the string the scan falls through.\<close>

lemma findPosition_loop_past:
  "totalLength runs < k \<Longrightarrow>
   findPosition_loop k delim runs = \<lparr>loc_node = None, loc_n = 0, loc_delim = delim\<rparr>"
proof (induction runs arbitrary: k)
  case Nil
  then show ?case by simp
next
  case (Cons r rest)
  obtain node n where r: "r = (node, n)" by (cases r)
  have "int n < k" using Cons.prems r totalLength_nonneg [of rest] by simp
  moreover have "totalLength rest < k - int n" using Cons.prems r by simp
  ultimately show ?case using Cons.IH r by simp
qed

text \<open>
  C7, as the claim states it, fails for a string with no run at all: its length is 0, the
  offset 0 lies within it, and the scan returns the degenerate Location although the
  offset is not greater than the total run length.
\<close>

theorem findPosition_roundtrip_counterexample:
  "0 \<le> totalLength ([[]::(nat \<times> nat) list] ! 0) \<and>
   \<not> totalLength ([[]::(nat \<times> nat) list] ! 0) < 0 \<and>
   findPosition 0 0 [36] [[]::(nat \<times> nat) list] =
     Inr \<lparr>loc_node = None, loc_n = 0, loc_delim = [36]\<rparr>"
  by (simp add: findPosition_def)

text \<open>
  C7 (amended). For a node array, a string index \<open>N\<close> of it whose run list has at least
  one run, and an offset \<open>k\<close> with \<open>0 \<le> k \<le>\<close> the summed run lengths of
  \<open>nodes[N]\<close>, \<open>findPosition\<close> returns the node of a run and an \<open>n\<close> within that run
  such that the summed length of the runs before it plus \<open>n\<close> is \<open>k\<close>; for \<open>k\<close>
  greater than the total run length it returns the degenerate Location with node
  \<open>null\<close>.
\<close>

theorem findPosition_roundtrip:
  assumes "0 \<le> N" and "N < int (length nodes)" and "nodes ! nat N \<noteq> []"
  shows "(0 \<le> k \<and> k \<le> totalLength (nodes ! nat N) \<longrightarrow>
           (\<exists>i<length (nodes ! nat N). \<exists>m.
              findPosition N k delim nodes =
                Inr \<lparr>loc_node = Some (fst (nodes ! nat N ! i)), loc_n = m, loc_delim = delim\<rparr> \<and>
              precedingLength i (nodes ! nat N) + m = k \<and>
              0 \<le> m \<and> m \<le> int (snd (nodes ! nat N ! i)))) \<and>
         (totalLength (nodes ! nat N) < k \<longrightarrow>
            findPosition N k delim nodes =
              Inr \<lparr>loc_node = None, loc_n = 0, loc_delim = delim\<rparr>)"
proof (intro conjI impI)
  assume "0 \<le> k \<and> k \<le> totalLength (nodes ! nat N)"
  with assms(3) obtain i where "i < length (nodes ! nat N)"
    and "findPosition_loop k delim (nodes ! nat N) =
        \<lparr>loc_node = Some (fst (nodes ! nat N ! i)),
         loc_n = k - precedingLength i (nodes ! nat N), loc_delim = delim\<rparr>"
    and "0 \<le> k - precedingLength i (nodes ! nat N)"
    and "k - precedingLength i (nodes ! nat N) \<le> int (snd (nodes ! nat N ! i))"
    using findPosition_loop_in_range [of "nodes ! nat N" k delim] by blast
  then show "\<exists>i<length (nodes ! nat N). \<exists>m.
              findPosition N k delim nodes =
                Inr \<lparr>loc_node = Some (fst (nodes ! nat N ! i)), loc_n = m, loc_delim = delim\<rparr> \<and>
              precedingLength i (nodes ! nat N) + m = k \<and>
              0 \<le> m \<and> m \<le> int (snd (nodes ! nat N ! i))"
    using assms(1,2)
    by (intro exI [of _ i] conjI exI [of _ "k - precedingLength i (nodes ! nat N)"])
       (simp_all add: findPosition_def)
next
  assume "totalLength (nodes ! nat N) < k"
  then show "findPosition N k delim nodes = Inr \<lparr>loc_node = None, loc_n = 0, loc_delim = delim\<rparr>"
    using assms(1,2) by (simp add: findPosition_def findPosition_loop_past)
qed

theorem findPosition_roundtrip_witness:
  "(\<exists>i<length ([[(10::nat, 2::nat), (11, 3)]] ! nat 0). \<exists>m.
      findPosition 0 5 [36] [[(10::nat, 2::nat), (11, 3)]] =
        Inr \<lparr>loc_node = Some (fst ([[(10::nat, 2::nat), (11, 3)]] ! nat 0 ! i)), loc_n = m,
             loc_delim = [36]\<rparr> \<and>
      precedingLength i ([[(10::nat, 2::nat), (11, 3)]] ! nat 0) + m = 5 \<and>
      0 \<le> m \<and> m \<le> int (snd ([[(10::nat, 2::nat), (11, 3)]] ! nat 0 ! i))) \<and>
   findPosition 0 6 [36] [[(10::nat, 2::nat), (11, 3)]] =
     Inr \<lparr>loc_node = None, loc_n = 0, loc_delim = [36]\<rparr>"
proof -
  let ?nodes = "[[(10::nat, 2::nat), (11, 3)]]"
  have r: "(0::int) \<le> 0" "(0::int) < int (length ?nodes)" "?nodes ! nat 0 \<noteq> []" by simp_all
  have a: "(0::int) \<le> 5 \<and> 5 \<le> totalLength (?nodes ! nat 0)" by simp
  have b: "totalLength (?nodes ! nat 0) < 6" by simp
  from findPosition_roundtrip [OF r, of 5 "[36]", THEN conjunct1, rule_format, OF a]
       findPosition_roundtrip [OF r, of 6 "[36]", THEN conjunct2, rule_format, OF b]
  show ?thesis by blast
qed

section \<open>Properties of findMath and removeFromDocument\<close>

lemma extractions_append [simp]: "extractions (xs @ ys) = extractions xs @ extractions ys"
  by (induction xs rule: extractions.induct) simp_all

lemma documentAfter_simps [simp]:
  "documentAfter (Inl (e, doc)) = doc"
  "documentAfter (Inr doc) = doc"
  by (simp_all add: documentAfter_def)

text \<open>
  Extracting the strings calls the extractor when nothing is cached for the container, and
  not otherwise.
\<close>

lemma extractStrings_calls:
  "extractStrings env container cache doc = (found, doc1) \<Longrightarrow>
   calls doc1 = calls doc @ (if cache = None then [DomStringsFind container] else []) \<and>
   inputJax doc1 = inputJax doc"
  by (auto simp: extractStrings_def split: option.splits)

text \<open>
  One container: whether the loop over the jax returns or raises, the extractor has been
  called for this container exactly when nothing was cached and some jax processes strings.
\<close>

lemma findMath_jaxes_calls:
  "\<exists>new. calls (documentAfter (findMath_jaxes env st container jaxes cache doc)) = calls doc @ new \<and>
         extractions new =
           (if cache = None \<and> (\<exists>jax\<in>set jaxes. jax_processStrings jax) then [container] else [])"
proof (induction jaxes arbitrary: cache doc)
  case Nil
  show ?case by simp
next
  case (Cons jax rest)
  show ?case
  proof (cases "jax_processStrings jax")
    case False
    let ?doc1 = "doc\<lparr>calls := calls doc @ [JaxFindMath (jax_name jax) (Inl container)],
                mathList := mathList_merge env (mathList doc)
                  (domItems st (jax_findMath jax (Inl container)) jax)\<rparr>"
    from Cons.IH [of cache ?doc1] obtain new where
      new: "calls (documentAfter (findMath_jaxes env st container rest cache ?doc1)) = calls ?doc1 @ new"
      and ex: "extractions new =
           (if cache = None \<and> (\<exists>jax\<in>set rest. jax_processStrings jax) then [container] else [])"
      by blast
    show ?thesis
      using False new ex
      by (intro exI [of _ "JaxFindMath (jax_name jax) (Inl container) # new"]) simp
  next
    case True
    obtain strings nodes doc1 where ext: "extractStrings env container cache doc = ((strings, nodes), doc1)"
      by (metis surj_pair)
    note c1 = extractStrings_calls [OF ext, THEN conjunct1]
    let ?call = "JaxFindMath (jax_name jax) (Inr strings)"
    show ?thesis
    proof (cases "mathItems st (jax_findMath jax (Inr strings)) jax nodes")
      case (Inl e)
      show ?thesis
        using True ext Inl c1
        by (intro exI [of _ "(if cache = None then [DomStringsFind container] else []) @ [?call]"]) simp
    next
      case (Inr list)
      let ?doc2 = "doc1\<lparr>calls := calls doc1 @ [?call],
                          mathList := mathList_merge env (mathList doc1) list\<rparr>"
      from Cons.IH [of "Some (strings, nodes)" ?doc2] obtain new where
        new: "calls (documentAfter (findMath_jaxes env st container rest (Some (strings, nodes)) ?doc2)) =
              calls ?doc2 @ new"
        and ex: "extractions new = []"
        by auto
      show ?thesis
        using True ext Inr c1 new ex
        by (intro exI [of _ "(if cache = None then [DomStringsFind container] else []) @ ?call # new"])
           simp
    qed
  qed
qed

lemma findMath_jaxes_inputJax:
  "inputJax (documentAfter (findMath_jaxes env st container jaxes cache doc)) = inputJax doc"
proof (induction jaxes arbitrary: cache doc)
  case Nil
  show ?case by simp
next
  case (Cons jax rest)
  show ?case
  proof (cases "jax_processStrings jax")
    case False
    then show ?thesis using Cons.IH by simp
  next
    case True
    obtain strings nodes doc1 where ext: "extractStrings env container cache doc = ((strings, nodes), doc1)"
      by (metis surj_pair)
    note c1 = extractStrings_calls [OF ext, THEN conjunct2]
    show ?thesis
      using True ext c1 Cons.IH by (simp split: sum.splits)
  qed
qed

lemma jaxCalls_append [simp]: "jaxCalls (xs @ ys) = jaxCalls xs @ jaxCalls ys"
  by (induction xs rule: jaxCalls.induct) simp_all

lemma extractStrings_found:
  "cache = None \<or> cache = Some (domStrings_find env container) \<Longrightarrow>
   fst (extractStrings env container cache doc) = domStrings_find env container"
  by (auto simp: extractStrings_def)

lemma take_min_append: "take k xs = take (min k (length xs)) (xs @ ys)"
  by (cases "k \<le> length xs") (simp_all add: min_def)

text \<open>
  One container: the jax are asked in their order, each what it is to be asked, up to the
  one whose items raise; when the loop returns every jax has been asked and the lists of
  items, none of which raised, have been merged in that order.
\<close>

lemma findMath_jaxes_log:
  assumes "cache = None \<or> cache = Some (domStrings_find env container)"
  shows "\<exists>new k. calls (documentAfter (findMath_jaxes env st container jaxes cache doc)) = calls doc @ new \<and>
           jaxCalls new = take k (map (askedWith env container) jaxes) \<and>
           (\<forall>doc1. findMath_jaxes env st container jaxes cache doc = Inr doc1 \<longrightarrow>
              jaxCalls new = map (askedWith env container) jaxes \<and>
              (\<exists>lists. map (jaxItems env st container) jaxes = map Inr lists \<and>
                 mathList doc1 = foldl (mathList_merge env) (mathList doc) lists))"
  using assms
proof (induction jaxes arbitrary: cache doc)
  case Nil
  show ?case by (intro exI [of _ "[]"] exI [of _ 0]) simp
next
  case (Cons jax rest)
  show ?case
  proof (cases "jax_processStrings jax")
    case False
    let ?list = "domItems st (jax_findMath jax (Inl container)) jax"
    let ?doc1 = "doc\<lparr>calls := calls doc @ [JaxFindMath (jax_name jax) (Inl container)],
                mathList := mathList_merge env (mathList doc) ?list\<rparr>"
    have step: "findMath_jaxes env st container (jax # rest) cache doc =
                findMath_jaxes env st container rest cache ?doc1"
      using False by simp
    have asked: "askedWith env container jax = JaxFindMath (jax_name jax) (Inl container)"
      using False by (simp add: askedWith_def)
    have items: "jaxItems env st container jax = Inr ?list"
      using False by (simp add: jaxItems_def)
    from Cons.IH [OF Cons.prems, of ?doc1] obtain new k where
      new: "calls (documentAfter (findMath_jaxes env st container rest cache ?doc1)) = calls ?doc1 @ new"
      and pre: "jaxCalls new = take k (map (askedWith env container) rest)"
      and ret: "\<forall>doc1. findMath_jaxes env st container rest cache ?doc1 = Inr doc1 \<longrightarrow>
              jaxCalls new = map (askedWith env container) rest \<and>
              (\<exists>lists. map (jaxItems env st container) rest = map Inr lists \<and>
                 mathList doc1 = foldl (mathList_merge env) (mathList ?doc1) lists)"
      by blast
    show ?thesis
    proof (intro exI [of _ "JaxFindMath (jax_name jax) (Inl container) # new"] exI [of _ "Suc k"]
        conjI allI impI)
      show "calls (documentAfter (findMath_jaxes env st container (jax # rest) cache doc)) =
            calls doc @ JaxFindMath (jax_name jax) (Inl container) # new"
        using step new by simp
      show "jaxCalls (JaxFindMath (jax_name jax) (Inl container) # new) =
            take (Suc k) (map (askedWith env container) (jax # rest))"
        using pre asked by simp
    next
      fix doc1
      assume r: "findMath_jaxes env st container (jax # rest) cache doc = Inr doc1"
      then have r': "findMath_jaxes env st container rest cache ?doc1 = Inr doc1"
        using step by simp
      from ret r' have full: "jaxCalls new = map (askedWith env container) rest"
        and "\<exists>lists. map (jaxItems env st container) rest = map Inr lists \<and>
                 mathList doc1 = foldl (mathList_merge env) (mathList ?doc1) lists"
        by blast+
      then obtain lists where l1: "map (jaxItems env st container) rest = map Inr lists"
        and l2: "mathList doc1 = foldl (mathList_merge env) (mathList ?doc1) lists"
        by blast
      show "jaxCalls (JaxFindMath (jax_name jax) (Inl container) # new) =
            map (askedWith env container) (jax # rest)"
        using full asked by simp
      show "\<exists>lists. map (jaxItems env st container) (jax # rest) = map Inr lists \<and>
                 mathList doc1 = foldl (mathList_merge env) (mathList doc) lists"
        using l1 l2 items by (intro exI [of _ "?list # lists"]) simp
    qed
  next
    case True
    let ?found = "domStrings_find env container"
    obtain doc0 where ext: "extractStrings env container cache doc = (?found, doc0)"
      using extractStrings_found [OF Cons.prems, of doc] by (metis prod.collapse)
    have c0: "calls doc0 = calls doc @ (if cache = None then [DomStringsFind container] else [])"
      and m0: "mathList doc0 = mathList doc"
      using ext by (auto simp: extractStrings_def split: option.splits)
    let ?call = "JaxFindMath (jax_name jax) (Inr (fst ?found))"
    let ?head = "(if cache = None then [DomStringsFind container] else []) @ [?call]"
    have asked: "askedWith env container jax = ?call"
      using True by (simp add: askedWith_def)
    have items: "jaxItems env st container jax =
                 mathItems st (jax_findMath jax (Inr (fst ?found))) jax (snd ?found)"
      using True by (simp add: jaxItems_def)
    show ?thesis
    proof (cases "mathItems st (jax_findMath jax (Inr (fst ?found))) jax (snd ?found)")
      case (Inl e)
      have res: "findMath_jaxes env st container (jax # rest) cache doc =
                 Inl (e, doc0\<lparr>calls := calls doc0 @ [?call]\<rparr>)"
        using True ext Inl by (simp add: prod_eq_iff split: prod.splits)
      show ?thesis
        using res c0 asked
        by (intro exI [of _ ?head] exI [of _ 1]) simp
    next
      case (Inr list)
      let ?doc1 = "doc0\<lparr>calls := calls doc0 @ [?call],
                          mathList := mathList_merge env (mathList doc0) list\<rparr>"
      have step: "findMath_jaxes env st container (jax # rest) cache doc =
                  findMath_jaxes env st container rest (Some ?found) ?doc1"
        using True ext Inr by (simp add: prod_eq_iff split: prod.splits)
      have inv: "Some ?found = None \<or> Some ?found = Some (domStrings_find env container)" by simp
      from Cons.IH [OF inv, of ?doc1] obtain new k where
        new: "calls (documentAfter (findMath_jaxes env st container rest (Some ?found) ?doc1)) =
              calls ?doc1 @ new"
        and pre: "jaxCalls new = take k (map (askedWith env container) rest)"
        and ret: "\<forall>doc1. findMath_jaxes env st container rest (Some ?found) ?doc1 = Inr doc1 \<longrightarrow>
              jaxCalls new = map (askedWith env container) rest \<and>
              (\<exists>lists. map (jaxItems env st container) rest = map Inr lists \<and>
                 mathList doc1 = foldl (mathList_merge env) (mathList ?doc1) lists)"
        by blast
      show ?thesis
      proof (intro exI [of _ "?head @ new"] exI [of _ "Suc k"] conjI allI impI)
        show "calls (documentAfter (findMath_jaxes env st container (jax # rest) cache doc)) =
              calls doc @ ?head @ new"
          using step new c0 by simp
        show "jaxCalls (?head @ new) = take (Suc k) (map (askedWith env container) (jax # rest))"
          using pre asked by simp
      next
        fix doc1
        assume r: "findMath_jaxes env st container (jax # rest) cache doc = Inr doc1"
        then have r': "findMath_jaxes env st container rest (Some ?found) ?doc1 = Inr doc1"
          using step by simp
        from ret r' have full: "jaxCalls new = map (askedWith env container) rest"
          and "\<exists>lists. map (jaxItems env st container) rest = map Inr lists \<and>
                 mathList doc1 = foldl (mathList_merge env) (mathList ?doc1) lists"
          by blast+
        then obtain lists where l1: "map (jaxItems env st container) rest = map Inr lists"
          and l2: "mathList doc1 = foldl (mathList_merge env) (mathList ?doc1) lists"
          by blast
        show "jaxCalls (?head @ new) = map (askedWith env container) (jax # rest)"
          using full asked by simp
        show "\<exists>lists. map (jaxItems env st container) (jax # rest) = map Inr lists \<and>
                 mathList doc1 = foldl (mathList_merge env) (mathList doc) lists"
          using l1 l2 items Inr m0 by (intro exI [of _ "list # lists"]) simp
      qed
    qed
  qed
qed

text \<open>
  All containers, one after the other: the same for the pairs of a container and a jax,
  and the extractions are made for an initial stretch of the container list, one each, and
  for none when no jax processes strings.
\<close>

lemma findMath_containers_log:
  "\<exists>new m k.
      calls (documentAfter (findMath_containers env st containers doc)) = calls doc @ new \<and>
      extractions new =
        take m (if \<exists>jax\<in>set (inputJax doc). jax_processStrings jax then containers else []) \<and>
      jaxCalls new =
        take k (map (\<lambda>(container, jax). askedWith env container jax)
                  (List.product containers (inputJax doc))) \<and>
      (\<forall>doc1. findMath_containers env st containers doc = Inr doc1 \<longrightarrow>
         extractions new =
           (if \<exists>jax\<in>set (inputJax doc). jax_processStrings jax then containers else []) \<and>
         jaxCalls new =
           map (\<lambda>(container, jax). askedWith env container jax)
             (List.product containers (inputJax doc)) \<and>
         (\<exists>lists. map (\<lambda>(container, jax). jaxItems env st container jax)
                     (List.product containers (inputJax doc)) = map Inr lists \<and>
                   mathList doc1 = foldl (mathList_merge env) (mathList doc) lists))"
proof (induction containers arbitrary: doc)
  case Nil
  show ?case by (intro exI [of _ "[]"] exI [of _ 0]) simp
next
  case (Cons container rest)
  let ?jaxes = "inputJax doc"
  let ?ps = "\<exists>jax\<in>set ?jaxes. jax_processStrings jax"
  let ?ask = "\<lambda>(container, jax). askedWith env container jax"
  let ?items = "\<lambda>(container, jax). jaxItems env st container jax"
  let ?R = "findMath_jaxes env st container ?jaxes None doc"
  from findMath_jaxes_calls [of env st container ?jaxes None doc] obtain new1 where
    new1: "calls (documentAfter ?R) = calls doc @ new1"
    and ex1: "extractions new1 = (if ?ps then [container] else [])"
    by auto
  from findMath_jaxes_log [of None env container st ?jaxes doc] obtain new1' k1 where
    new1': "calls (documentAfter ?R) = calls doc @ new1'"
    and pre1: "jaxCalls new1' = take k1 (map (askedWith env container) ?jaxes)"
    and ret1: "\<forall>doc1. ?R = Inr doc1 \<longrightarrow>
              jaxCalls new1' = map (askedWith env container) ?jaxes \<and>
              (\<exists>lists. map (jaxItems env st container) ?jaxes = map Inr lists \<and>
                 mathList doc1 = foldl (mathList_merge env) (mathList doc) lists)"
    by blast
  have same: "new1' = new1" using new1 new1' by simp
  have prod: "map ?ask (List.product (container # rest) ?jaxes) =
              map (askedWith env container) ?jaxes @ map ?ask (List.product rest ?jaxes)"
    "map ?items (List.product (container # rest) ?jaxes) =
              map (jaxItems env st container) ?jaxes @ map ?items (List.product rest ?jaxes)"
    by (simp_all add: comp_def)
  show ?case
  proof (cases ?R)
    case (Inl failed)
    obtain e d where failed: "failed = (e, d)" by (cases failed)
    have res: "findMath_containers env st (container # rest) doc = Inl (e, d)"
      using Inl failed by simp
    have d: "calls d = calls doc @ new1" using new1 Inl failed by simp
    have j: "jaxCalls new1 =
             take (min k1 (length (map (askedWith env container) ?jaxes)))
               (map ?ask (List.product (container # rest) ?jaxes))"
      unfolding prod using pre1 same take_min_append by metis
    have A: "calls (documentAfter (findMath_containers env st (container # rest) doc)) =
             calls doc @ new1"
      using res d by simp
    have B: "extractions new1 = take 1 (if ?ps then container # rest else [])"
      using ex1 by simp
    have D: "\<forall>doc2. findMath_containers env st (container # rest) doc = Inr doc2 \<longrightarrow>
         extractions new1 = (if ?ps then container # rest else []) \<and>
         jaxCalls new1 = map ?ask (List.product (container # rest) ?jaxes) \<and>
         (\<exists>lists. map ?items (List.product (container # rest) ?jaxes) = map Inr lists \<and>
                   mathList doc2 = foldl (mathList_merge env) (mathList doc) lists)"
      using res by simp
    from A B j D show ?thesis by blast
  next
    case (Inr doc1)
    have res: "findMath_containers env st (container # rest) doc =
               findMath_containers env st rest doc1"
      using Inr by simp
    have jx: "inputJax doc1 = inputJax doc"
      using findMath_jaxes_inputJax [of env st container ?jaxes None doc] Inr by simp
    have c1: "calls doc1 = calls doc @ new1" using new1 Inr by simp
    from ret1 Inr same have full1: "jaxCalls new1 = map (askedWith env container) ?jaxes"
      and "\<exists>lists. map (jaxItems env st container) ?jaxes = map Inr lists \<and>
                 mathList doc1 = foldl (mathList_merge env) (mathList doc) lists"
      by blast+
    then obtain lists1 where l1: "map (jaxItems env st container) ?jaxes = map Inr lists1"
      and m1: "mathList doc1 = foldl (mathList_merge env) (mathList doc) lists1"
      by blast
    from Cons.IH [of doc1, unfolded jx] obtain new2 m k where
      new2: "calls (documentAfter (findMath_containers env st rest doc1)) = calls doc1 @ new2"
      and ex2: "extractions new2 = take m (if ?ps then rest else [])"
      and pre2: "jaxCalls new2 = take k (map ?ask (List.product rest ?jaxes))"
      and ret2: "\<forall>doc2. findMath_containers env st rest doc1 = Inr doc2 \<longrightarrow>
         extractions new2 = (if ?ps then rest else []) \<and>
         jaxCalls new2 = map ?ask (List.product rest ?jaxes) \<and>
         (\<exists>lists. map ?items (List.product rest ?jaxes) = map Inr lists \<and>
                   mathList doc2 = foldl (mathList_merge env) (mathList doc1) lists)"
      by blast
    have A: "calls (documentAfter (findMath_containers env st (container # rest) doc)) =
            calls doc @ new1 @ new2"
      using res new2 c1 by simp
    have B: "extractions (new1 @ new2) = take (Suc m) (if ?ps then container # rest else [])"
      using ex1 ex2 by (cases ?ps) auto
    have C: "jaxCalls (new1 @ new2) =
            take (length (map (askedWith env container) ?jaxes) + k)
              (map ?ask (List.product (container # rest) ?jaxes))"
      unfolding prod using full1 pre2 by simp
    have D: "\<forall>doc2. findMath_containers env st (container # rest) doc = Inr doc2 \<longrightarrow>
         extractions (new1 @ new2) = (if ?ps then container # rest else []) \<and>
         jaxCalls (new1 @ new2) = map ?ask (List.product (container # rest) ?jaxes) \<and>
         (\<exists>lists. map ?items (List.product (container # rest) ?jaxes) = map Inr lists \<and>
                   mathList doc2 = foldl (mathList_merge env) (mathList doc) lists)"
    proof (intro allI impI conjI)
      fix doc2
      assume "findMath_containers env st (container # rest) doc = Inr doc2"
      then have r2: "findMath_containers env st rest doc1 = Inr doc2" using res by simp
      from ret2 r2 have e2: "extractions new2 = (if ?ps then rest else [])"
        and f2: "jaxCalls new2 = map ?ask (List.product rest ?jaxes)"
        and "\<exists>lists. map ?items (List.product rest ?jaxes) = map Inr lists \<and>
                   mathList doc2 = foldl (mathList_merge env) (mathList doc1) lists"
        by blast+
      then obtain lists2 where l2: "map ?items (List.product rest ?jaxes) = map Inr lists2"
        and m2: "mathList doc2 = foldl (mathList_merge env) (mathList doc1) lists2"
        by blast
      show "extractions (new1 @ new2) = (if ?ps then container # rest else [])"
        using ex1 e2 by (cases ?ps) auto
      show "jaxCalls (new1 @ new2) = map ?ask (List.product (container # rest) ?jaxes)"
        unfolding prod using full1 f2 by simp
      show "\<exists>lists. map ?items (List.product (container # rest) ?jaxes) = map Inr lists \<and>
                   mathList doc2 = foldl (mathList_merge env) (mathList doc) lists"
        unfolding prod using l1 l2 m1 m2 by (intro exI [of _ "lists1 @ lists2"]) simp
    qed
    from A B C D show ?thesis by blast
  qed
qed

text \<open>
  The example document: the string jax finds one item in the extracted string, the DOM jax
  nothing.
\<close>

lemma example_findMath:
  "findMath exampleCollaborators exampleSTATE () exampleDocument =
     Inr \<lparr>processed_findMath = True, processed_updateDocument = False,
          mathList =
            [\<lparr>mi_math = [120], mi_jax = ''TeX'', mi_display = False,
              mi_start = \<lparr>loc_node = Some 7, loc_n = 0, loc_delim = [36]\<rparr>,
              mi_end = \<lparr>loc_node = Some 7, loc_n = 3, loc_delim = [36]\<rparr>,
              mi_state = 0\<rparr>],
          inputJax = [exampleTeX, exampleMathML],
          calls = [DomStringsFind 7, JaxFindMath ''TeX'' (Inr [[36, 120, 36]]),
                   JaxFindMath ''MathML'' (Inl 7)]\<rparr>"
  by (simp add: findMath_def exampleCollaborators_def exampleDocument_def exampleTeX_def
      exampleMathML_def exampleSTATE_def extractStrings_def mathItem_def findPosition_def
      HTMLMathItem_def domItems_def)

text \<open>
  C3. When a call of \<open>findMath\<close> has returned, the flag \<open>processed.findMath\<close> is set, and
  a second call (with whatever options) is a no-op: it returns the same document, the math
  list is the one the first call produced, and no call to an input jax or to the string
  extractor is added.
\<close>

theorem findMath_twice:
  assumes "findMath env st options doc = Inr doc1"
  shows "processed_findMath doc1 \<and>
         findMath env2 st2 options2 doc1 = Inr doc1 \<and>
         mathList (documentAfter (findMath env2 st2 options2 doc1)) = mathList doc1 \<and>
         calls (documentAfter (findMath env2 st2 options2 doc1)) = calls doc1"
proof -
  have flag: "processed_findMath doc1"
    using assms by (auto simp: findMath_def split: if_splits sum.splits)
  then have "findMath env2 st2 options2 doc1 = Inr doc1"
    by (simp add: findMath_def)
  with flag show ?thesis by simp
qed

theorem findMath_twice_witness:
  "\<exists>doc1. findMath exampleCollaborators exampleSTATE () exampleDocument = Inr doc1 \<and>
     processed_findMath doc1 \<and>
     findMath exampleCollaborators exampleSTATE () doc1 = Inr doc1 \<and>
     mathList (documentAfter (findMath exampleCollaborators exampleSTATE () doc1)) = mathList doc1 \<and>
     calls (documentAfter (findMath exampleCollaborators exampleSTATE () doc1)) = calls doc1"
  using findMath_twice [OF example_findMath, of exampleCollaborators exampleSTATE "()"]
    example_findMath by blast

text \<open>
  C8. Within one \<open>findMath\<close>, returned or raised, the string extractions are made for an
  initial stretch of the list of containers, each at most once, and none is made when no
  registered jax has \<open>processStrings\<close>; the calls to the jax are an initial stretch of the
  calls due, container by container and jax by jax, where a jax with \<open>processStrings\<close>
  false is due the container itself. When \<open>findMath\<close> runs on a document not yet searched
  and returns, the extractor has been called exactly once for every container if some jax
  has \<open>processStrings\<close> and not at all otherwise, every jax has been asked for every
  container, and the math list is the old one with the items of every container and jax
  merged in, in that order. For a jax with \<open>processStrings\<close> false these items carry the
  start and end that the jax reports, and no string is involved.
\<close>

theorem findMath_extracts_once:
  "(\<exists>new m k.
      calls (documentAfter (findMath env st options doc)) = calls doc @ new \<and>
      extractions new =
        take m (if \<exists>jax\<in>set (inputJax doc). jax_processStrings jax
                then getContainers env options else []) \<and>
      jaxCalls new =
        take k (map (\<lambda>(container, jax). askedWith env container jax)
                  (List.product (getContainers env options) (inputJax doc)))) \<and>
   (\<not> processed_findMath doc \<and> findMath env st options doc = Inr doc1 \<longrightarrow>
      (\<exists>new lists.
         calls doc1 = calls doc @ new \<and>
         extractions new =
           (if \<exists>jax\<in>set (inputJax doc). jax_processStrings jax
            then getContainers env options else []) \<and>
         jaxCalls new =
           map (\<lambda>(container, jax). askedWith env container jax)
             (List.product (getContainers env options) (inputJax doc)) \<and>
         map (\<lambda>(container, jax). jaxItems env st container jax)
           (List.product (getContainers env options) (inputJax doc)) = map Inr lists \<and>
         mathList doc1 = foldl (mathList_merge env) (mathList doc) lists)) \<and>
   (\<not> jax_processStrings jax \<longrightarrow>
      askedWith env container jax = JaxFindMath (jax_name jax) (Inl container) \<and>
      jaxItems env st container jax =
        Inr (map (\<lambda>math. \<lparr>mi_math = pi_math math, mi_jax = jax_name jax,
                            mi_display = pi_display math, mi_start = pi_start math,
                            mi_end = pi_end math, mi_state = UNPROCESSED st\<rparr>)
               (jax_findMath jax (Inl container))))"
proof (intro conjI impI)
  let ?cs = "getContainers env options"
  let ?R = "findMath_containers env st ?cs doc"
  from findMath_containers_log [of env st ?cs doc] obtain new m k where
    A: "calls (documentAfter ?R) = calls doc @ new"
    and B: "extractions new =
        take m (if \<exists>jax\<in>set (inputJax doc). jax_processStrings jax then ?cs else [])"
    and C: "jaxCalls new =
        take k (map (\<lambda>(container, jax). askedWith env container jax)
                  (List.product ?cs (inputJax doc)))"
    and D: "\<forall>doc1. ?R = Inr doc1 \<longrightarrow>
         extractions new =
           (if \<exists>jax\<in>set (inputJax doc). jax_processStrings jax then ?cs else []) \<and>
         jaxCalls new =
           map (\<lambda>(container, jax). askedWith env container jax)
             (List.product ?cs (inputJax doc)) \<and>
         (\<exists>lists. map (\<lambda>(container, jax). jaxItems env st container jax)
                     (List.product ?cs (inputJax doc)) = map Inr lists \<and>
                   mathList doc1 = foldl (mathList_merge env) (mathList doc) lists)"
    by blast
  show "\<exists>new m k.
      calls (documentAfter (findMath env st options doc)) = calls doc @ new \<and>
      extractions new =
        take m (if \<exists>jax\<in>set (inputJax doc). jax_processStrings jax then ?cs else []) \<and>
      jaxCalls new =
        take k (map (\<lambda>(container, jax). askedWith env container jax)
                  (List.product ?cs (inputJax doc)))"
  proof (cases "processed_findMath doc")
    case True
    then have "calls (documentAfter (findMath env st options doc)) = calls doc @ []"
      by (simp add: findMath_def)
    moreover have "extractions ([]::'a call list) =
        take 0 (if \<exists>jax\<in>set (inputJax doc). jax_processStrings jax then ?cs else [])"
      by simp
    moreover have "jaxCalls ([]::'a call list) =
        take 0 (map (\<lambda>(container, jax). askedWith env container jax)
                  (List.product ?cs (inputJax doc)))"
      by simp
    ultimately show ?thesis by blast
  next
    case False
    have "calls (documentAfter (findMath env st options doc)) = calls (documentAfter ?R)"
      using False by (auto simp: findMath_def split: sum.splits)
    with A B C show ?thesis by metis
  qed
  assume a: "\<not> processed_findMath doc \<and> findMath env st options doc = Inr doc1"
  then obtain doc0 where r: "?R = Inr doc0" and d1: "doc1 = doc0\<lparr>processed_findMath := True\<rparr>"
    by (auto simp: findMath_def split: sum.splits)
  from D r obtain lists where
    E: "extractions new =
           (if \<exists>jax\<in>set (inputJax doc). jax_processStrings jax then ?cs else [])"
    and J: "jaxCalls new =
           map (\<lambda>(container, jax). askedWith env container jax) (List.product ?cs (inputJax doc))"
    and L: "map (\<lambda>(container, jax). jaxItems env st container jax)
                     (List.product ?cs (inputJax doc)) = map Inr lists"
    and M: "mathList doc0 = foldl (mathList_merge env) (mathList doc) lists"
    by blast
  have c: "calls doc1 = calls doc @ new" using A r d1 by simp
  have m: "mathList doc1 = foldl (mathList_merge env) (mathList doc) lists" using M d1 by simp
  from c E J L m
  show "\<exists>new lists.
         calls doc1 = calls doc @ new \<and>
         extractions new =
           (if \<exists>jax\<in>set (inputJax doc). jax_processStrings jax then ?cs else []) \<and>
         jaxCalls new =
           map (\<lambda>(container, jax). askedWith env container jax) (List.product ?cs (inputJax doc)) \<and>
         map (\<lambda>(container, jax). jaxItems env st container jax)
           (List.product ?cs (inputJax doc)) = map Inr lists \<and>
         mathList doc1 = foldl (mathList_merge env) (mathList doc) lists"
    by blast
next
  assume "\<not> jax_processStrings jax"
  then show "askedWith env container jax = JaxFindMath (jax_name jax) (Inl container)"
    by (simp add: askedWith_def)
next
  assume "\<not> jax_processStrings jax"
  then show "jaxItems env st container jax =
        Inr (map (\<lambda>math. \<lparr>mi_math = pi_math math, mi_jax = jax_name jax,
                            mi_display = pi_display math, mi_start = pi_start math,
                            mi_end = pi_end math, mi_state = UNPROCESSED st\<rparr>)
               (jax_findMath jax (Inl container)))"
    by (simp add: jaxItems_def domItems_def HTMLMathItem_def)
qed

theorem findMath_extracts_once_witness:
  "\<exists>doc1 new lists.
     findMath exampleCollaborators exampleSTATE () exampleDocument = Inr doc1 \<and>
     calls doc1 = calls exampleDocument @ new \<and>
     extractions new = [7] \<and>
     jaxCalls new = [JaxFindMath ''TeX'' (Inr [[36, 120, 36]]), JaxFindMath ''MathML'' (Inl 7)] \<and>
     [jaxItems exampleCollaborators exampleSTATE 7 exampleTeX,
      jaxItems exampleCollaborators exampleSTATE 7 exampleMathML] = map Inr lists \<and>
     mathList doc1 =
       foldl (mathList_merge exampleCollaborators) (mathList exampleDocument) lists \<and>
     jaxItems exampleCollaborators exampleSTATE 7 exampleMathML = Inr []"
proof -
  obtain doc1 where r: "findMath exampleCollaborators exampleSTATE () exampleDocument = Inr doc1"
    using example_findMath by blast
  have fresh: "\<not> processed_findMath exampleDocument \<and>
      findMath exampleCollaborators exampleSTATE () exampleDocument = Inr doc1"
    using r by (simp add: exampleDocument_def)
  have dom: "\<not> jax_processStrings exampleMathML" by (simp add: exampleMathML_def)
  note inst = findMath_extracts_once [of exampleCollaborators exampleSTATE "()" exampleDocument
      doc1 exampleMathML 7]
  from inst [THEN conjunct2, THEN conjunct1, rule_format, OF fresh] obtain new lists where
    "calls doc1 = calls exampleDocument @ new"
    and "extractions new =
           (if \<exists>jax\<in>set (inputJax exampleDocument). jax_processStrings jax
            then getContainers exampleCollaborators () else [])"
    and "jaxCalls new =
           map (\<lambda>(container, jax). askedWith exampleCollaborators container jax)
             (List.product (getContainers exampleCollaborators ()) (inputJax exampleDocument))"
    and "map (\<lambda>(container, jax). jaxItems exampleCollaborators exampleSTATE container jax)
           (List.product (getContainers exampleCollaborators ()) (inputJax exampleDocument)) =
         map Inr lists"
    and "mathList doc1 =
           foldl (mathList_merge exampleCollaborators) (mathList exampleDocument) lists"
    by blast
  then have facts: "calls doc1 = calls exampleDocument @ new"
    "extractions new = [7]"
    "jaxCalls new = [JaxFindMath ''TeX'' (Inr [[36, 120, 36]]), JaxFindMath ''MathML'' (Inl 7)]"
    "[jaxItems exampleCollaborators exampleSTATE 7 exampleTeX,
          jaxItems exampleCollaborators exampleSTATE 7 exampleMathML] = map Inr lists"
    "mathList doc1 =
           foldl (mathList_merge exampleCollaborators) (mathList exampleDocument) lists"
    by (simp_all add: exampleDocument_def exampleCollaborators_def exampleTeX_def
        exampleMathML_def askedWith_def)
  have none: "jaxItems exampleCollaborators exampleSTATE 7 exampleMathML = Inr []"
    using inst [THEN conjunct2, THEN conjunct2, rule_format, OF dom]
    by (simp add: exampleMathML_def)
  show ?thesis
    by (rule exI [of _ doc1], rule exI [of _ new], rule exI [of _ lists])
       (intro conjI r facts none)
qed

text \<open>
  C9. On a rendered document (\<open>processed.updateDocument\<close> set) \<open>removeFromDocument\<close>
  calls \<open>state(STATE.TYPESET, restore)\<close> on every math item whose state is at least
  INSERTED and leaves the others alone, so that, the setter setting the state it is given,
  exactly those items are back at TYPESET; it always clears the flag. A second consecutive
  call, with whatever arguments, finds the flag cleared and changes nothing: the document
  and its math list stay as the first call left them.
\<close>

theorem removeFromDocument_twice:
  "(processed_updateDocument doc \<longrightarrow>
      mathList (removeFromDocument state_set st restore doc) =
        map (\<lambda>math. if INSERTED st \<le> mi_state math
                     then state_set (TYPESET st) restore math else math)
          (mathList doc)) \<and>
   (processed_updateDocument doc \<and> (\<forall>state r math. mi_state (state_set state r math) = state) \<longrightarrow>
      map mi_state (mathList (removeFromDocument state_set st restore doc)) =
        map (\<lambda>math. if INSERTED st \<le> mi_state math then TYPESET st else mi_state math)
          (mathList doc)) \<and>
   \<not> processed_updateDocument (removeFromDocument state_set st restore doc) \<and>
   removeFromDocument state_set2 st2 restore2 (removeFromDocument state_set st restore doc) =
     removeFromDocument state_set st restore doc \<and>
   mathList (removeFromDocument state_set2 st2 restore2
               (removeFromDocument state_set st restore doc)) =
     mathList (removeFromDocument state_set st restore doc)"
  by (simp add: removeFromDocument_def Let_def)

theorem removeFromDocument_twice_witness:
  "processed_updateDocument exampleRendered \<and>
   map mi_state (mathList exampleRendered) = [3] \<and>
   map mi_state (mathList (removeFromDocument exampleStateSetter exampleSTATE False exampleRendered)) =
     [2] \<and>
   \<not> processed_updateDocument
       (removeFromDocument exampleStateSetter exampleSTATE False exampleRendered) \<and>
   removeFromDocument exampleStateSetter exampleSTATE False
       (removeFromDocument exampleStateSetter exampleSTATE False exampleRendered) =
     removeFromDocument exampleStateSetter exampleSTATE False exampleRendered"
proof -
  note inst = removeFromDocument_twice [of exampleRendered exampleStateSetter exampleSTATE False
      exampleStateSetter exampleSTATE False]
  have flag: "processed_updateDocument exampleRendered \<and>
      (\<forall>state r math. mi_state (exampleStateSetter state r math) = state)"
    by (simp add: exampleRendered_def exampleStateSetter_def)
  have before: "map mi_state (mathList exampleRendered) = [3]" by (simp add: exampleRendered_def)
  have "map mi_state (mathList (removeFromDocument exampleStateSetter exampleSTATE False exampleRendered)) =
     [2]"
    using inst [THEN conjunct2, THEN conjunct1, rule_format, OF flag]
    by (simp add: exampleRendered_def exampleSTATE_def)
  with flag before inst show ?thesis by blast
qed

section \<open>Properties of the braket handlers and of the braket item\<close>

lemma bar_neq_doubleBar [simp]: "bar \<noteq> doubleBar" "doubleBar \<noteq> bar"
  by (simp_all add: bar_def doubleBar_def)

text \<open>
  On a braket item the push of a node is what the item itself answers to the \<open>mml\<close> item
  of that node: it takes the node among its own and returns \<^verbatim>\<open>[null, false]\<close>, so that
  nothing goes on the stack.
\<close>

lemma Push_node_checkItem:
  "kind (stack_top parser) = ''braket'' \<Longrightarrow> super_toMml (mmlItem node) = node \<Longrightarrow>
   checkItem fenced super_toMml super_checkItem (stack_top parser) (mmlItem node) =
     (stack_top (Push_node react node parser), None, False)"
  by (simp add: checkItem_def mmlItem_def Push_node_def)

lemma Push_node_braket:
  "kind (stack_top parser) = ''braket'' \<Longrightarrow>
   Push_node react node parser =
     parser\<lparr>stack_top := (stack_top parser)\<lparr>childNodes := childNodes (stack_top parser) @ [node]\<rparr>,
            actions := actions parser @ [PushNode node]\<rparr>"
  by (simp add: Push_node_def)

lemma Push_node_braket_stack:
  "kind (stack_top parser) = ''braket'' \<Longrightarrow>
   stack_top (Push_node react node parser) =
     (stack_top parser)\<lparr>childNodes := childNodes (stack_top parser) @ [node]\<rparr>"
  "kind (stack_top parser) = ''braket'' \<Longrightarrow>
   stack_below (Push_node react node parser) = stack_below parser"
  by (simp_all add: Push_node_def)

text \<open>
  Whatever the top item, a push is logged once and leaves the input and the cursor; on a
  top item of another kind the stack afterwards is what that item's reaction makes of it.
\<close>

lemma Push_node_parser:
  "actions (Push_node react node parser) = actions parser @ [PushNode node]"
  "parser_i (Push_node react node parser) = parser_i parser"
  "parser_string (Push_node react node parser) = parser_string parser"
  by (simp_all add: Push_node_def)

lemma Push_node_other:
  "kind (stack_top parser) \<noteq> ''braket'' \<Longrightarrow>
   (stack_top (Push_node react node parser), stack_below (Push_node react node parser)) =
     react node (stack_top parser) (stack_below parser)"
  by (simp add: Push_node_def)

lemma setProperty_barcount_parser:
  "stack_top (setProperty_barcount v parser) = (stack_top parser)\<lparr>barcount := v\<rparr>"
  "stack_below (setProperty_barcount v parser) = stack_below parser"
  "actions (setProperty_barcount v parser) = actions parser @ [SetProperty ''barcount'' v]"
  "parser_i (setProperty_barcount v parser) = parser_i parser"
  "parser_string (setProperty_barcount v parser) = parser_string parser"
  by (simp_all add: setProperty_barcount_def)

text \<open>
  The three paths of \<open>Bar\<close>: the fallback, an accepted delimiter on a frame that is not
  stretchy, and an accepted delimiter on a stretchy frame.
\<close>

lemma Bar_fallback:
  "kind (stack_top parser) \<noteq> ''braket'' \<or>
     reaches (barcount (stack_top parser)) (barmax (stack_top parser)) \<Longrightarrow>
   Bar GetNext react parser name =
     Push_node react (Token ''mo'' [(''texClass'', ClassAttr ORD), (''stretchy'', BoolAttr False)]
                  (if name = bar then bar else doubleBar)) parser"
  by (auto simp: Bar_def Let_def)

lemma Bar_plain:
  "kind (stack_top parser) = ''braket'' \<Longrightarrow>
   \<not> reaches (barcount (stack_top parser)) (barmax (stack_top parser)) \<Longrightarrow>
   \<not> stretchy (stack_top parser) \<Longrightarrow>
   Bar GetNext react parser name =
     Push_node react (Token ''mo'' [(''stretchy'', BoolAttr False), (''braketbar'', BoolAttr True)]
                  (emitted GetNext parser name))
       (parser\<lparr>parser_i := cursorAfter GetNext parser name\<rparr>)"
  by (auto simp: Bar_def Let_def emitted_def cursorAfter_def)

lemma Bar_stretchy:
  "kind (stack_top parser) = ''braket'' \<Longrightarrow>
   \<not> reaches (barcount (stack_top parser)) (barmax (stack_top parser)) \<Longrightarrow>
   stretchy (stack_top parser) \<Longrightarrow>
   Bar GetNext react parser name =
     Push_node react (Node ''TeXAtom'' [] [(''texClass'', ClassAttr OPEN)])
       (Push_node react (Token ''mo'' [(''stretchy'', BoolAttr True), (''braketbar'', BoolAttr True)]
                     (emitted GetNext parser name))
          (setProperty_barcount (barcount (stack_top parser) + 1)
             (Push_node react (Node ''TeXAtom'' [] [(''texClass'', ClassAttr CLOSE)])
                (parser\<lparr>parser_i := cursorAfter GetNext parser name\<rparr>))))"
  by (auto simp: Bar_def Let_def emitted_def cursorAfter_def Push_node_braket_stack)

text \<open>What the two accepted paths leave of a braket top item, of the log and of the cursor.\<close>

lemma Bar_plain_result:
  assumes "kind (stack_top parser) = ''braket''"
    and "\<not> reaches (barcount (stack_top parser)) (barmax (stack_top parser))"
    and "\<not> stretchy (stack_top parser)"
  shows "stack_top (Bar GetNext react parser name) =
           (stack_top parser)
             \<lparr>childNodes := childNodes (stack_top parser) @
                [Token ''mo'' [(''stretchy'', BoolAttr False), (''braketbar'', BoolAttr True)]
                   (emitted GetNext parser name)]\<rparr>"
    and "stack_below (Bar GetNext react parser name) = stack_below parser"
    and "parser_i (Bar GetNext react parser name) = cursorAfter GetNext parser name"
    and "actions (Bar GetNext react parser name) =
           actions parser @
             [PushNode (Token ''mo'' [(''stretchy'', BoolAttr False), (''braketbar'', BoolAttr True)]
                          (emitted GetNext parser name))]"
  using assms(1)
  by (simp_all add: Bar_plain [OF assms] Push_node_braket_stack Push_node_parser)

lemma Bar_stretchy_result:
  assumes "kind (stack_top parser) = ''braket''"
    and "\<not> reaches (barcount (stack_top parser)) (barmax (stack_top parser))"
    and "stretchy (stack_top parser)"
  shows "stack_top (Bar GetNext react parser name) =
           (stack_top parser)
             \<lparr>barcount := barcount (stack_top parser) + 1,
              childNodes := childNodes (stack_top parser) @
                [Node ''TeXAtom'' [] [(''texClass'', ClassAttr CLOSE)],
                 Token ''mo'' [(''stretchy'', BoolAttr True), (''braketbar'', BoolAttr True)]
                   (emitted GetNext parser name),
                 Node ''TeXAtom'' [] [(''texClass'', ClassAttr OPEN)]]\<rparr>"
    and "stack_below (Bar GetNext react parser name) = stack_below parser"
    and "parser_i (Bar GetNext react parser name) = cursorAfter GetNext parser name"
    and "actions (Bar GetNext react parser name) =
           actions parser @
             [PushNode (Node ''TeXAtom'' [] [(''texClass'', ClassAttr CLOSE)]),
              SetProperty ''barcount'' (barcount (stack_top parser) + 1),
              PushNode (Token ''mo'' [(''stretchy'', BoolAttr True), (''braketbar'', BoolAttr True)]
                          (emitted GetNext parser name)),
              PushNode (Node ''TeXAtom'' [] [(''texClass'', ClassAttr OPEN)])]"
proof -
  let ?p0 = "parser\<lparr>parser_i := cursorAfter GetNext parser name\<rparr>"
  let ?p1 = "Push_node react (Node ''TeXAtom'' [] [(''texClass'', ClassAttr CLOSE)]) ?p0"
  let ?p2 = "setProperty_barcount (barcount (stack_top parser) + 1) ?p1"
  let ?p3 = "Push_node react (Token ''mo'' [(''stretchy'', BoolAttr True), (''braketbar'', BoolAttr True)]
                     (emitted GetNext parser name)) ?p2"
  let ?p4 = "Push_node react (Node ''TeXAtom'' [] [(''texClass'', ClassAttr OPEN)]) ?p3"
  have eq: "Bar GetNext react parser name = ?p4" by (rule Bar_stretchy [OF assms])
  have k0: "kind (stack_top ?p0) = ''braket''" using assms(1) by simp
  have t1: "stack_top ?p1 = (stack_top parser)
      \<lparr>childNodes := childNodes (stack_top parser) @
         [Node ''TeXAtom'' [] [(''texClass'', ClassAttr CLOSE)]]\<rparr>"
    and b1: "stack_below ?p1 = stack_below parser"
    using Push_node_braket_stack [OF k0] by simp_all
  have t2: "stack_top ?p2 = (stack_top parser)
      \<lparr>barcount := barcount (stack_top parser) + 1,
       childNodes := childNodes (stack_top parser) @
         [Node ''TeXAtom'' [] [(''texClass'', ClassAttr CLOSE)]]\<rparr>"
    and b2: "stack_below ?p2 = stack_below parser"
    using t1 b1 by (simp_all add: setProperty_barcount_parser)
  have k2: "kind (stack_top ?p2) = ''braket''" using t2 assms(1) by simp
  have t3: "stack_top ?p3 = (stack_top parser)
      \<lparr>barcount := barcount (stack_top parser) + 1,
       childNodes := childNodes (stack_top parser) @
         [Node ''TeXAtom'' [] [(''texClass'', ClassAttr CLOSE)],
          Token ''mo'' [(''stretchy'', BoolAttr True), (''braketbar'', BoolAttr True)]
            (emitted GetNext parser name)]\<rparr>"
    and b3: "stack_below ?p3 = stack_below parser"
    using Push_node_braket_stack [OF k2] t2 b2 by simp_all
  have k3: "kind (stack_top ?p3) = ''braket''" using t3 assms(1) by simp
  show "stack_top (Bar GetNext react parser name) =
           (stack_top parser)
             \<lparr>barcount := barcount (stack_top parser) + 1,
              childNodes := childNodes (stack_top parser) @
                [Node ''TeXAtom'' [] [(''texClass'', ClassAttr CLOSE)],
                 Token ''mo'' [(''stretchy'', BoolAttr True), (''braketbar'', BoolAttr True)]
                   (emitted GetNext parser name),
                 Node ''TeXAtom'' [] [(''texClass'', ClassAttr OPEN)]]\<rparr>"
    unfolding eq using Push_node_braket_stack(1) [OF k3] t3 by simp
  show "stack_below (Bar GetNext react parser name) = stack_below parser"
    unfolding eq using Push_node_braket_stack(2) [OF k3] b3 by simp
  show "parser_i (Bar GetNext react parser name) = cursorAfter GetNext parser name"
    unfolding eq by (simp add: Push_node_parser setProperty_barcount_parser)
  show "actions (Bar GetNext react parser name) =
           actions parser @
             [PushNode (Node ''TeXAtom'' [] [(''texClass'', ClassAttr CLOSE)]),
              SetProperty ''barcount'' (barcount (stack_top parser) + 1),
              PushNode (Token ''mo'' [(''stretchy'', BoolAttr True), (''braketbar'', BoolAttr True)]
                          (emitted GetNext parser name)),
              PushNode (Node ''TeXAtom'' [] [(''texClass'', ClassAttr OPEN)])]"
    unfolding eq by (simp add: Push_node_parser setProperty_barcount_parser)
qed

lemma exampleSet_top:
  "stack_top (exampleSet str i) =
     \<lparr>kind = ''braket'', barmax = Finite 1, barcount = 0, prop_open = [123], prop_close = [125],
      stretchy = str, childNodes = []\<rparr>"
  "parser_string (exampleSet str i) = [123, 120, 124, 121, 124, 124, 122, 125]"
  "parser_i (exampleSet str i) = i"
  "actions (exampleSet str i) = [PushItem (stack_top (exampleSet str i))]"
  "stack_below (exampleSet str i) = [exampleBottom]"
  by (simp_all add: exampleSet_def Braket_def Push_item_def exampleParser_def)

lemma exampleFull_top:
  "stack_top exampleFull =
     \<lparr>kind = ''braket'', barmax = Finite 1, barcount = 1, prop_open = [123], prop_close = [125],
      stretchy = True, childNodes = []\<rparr>"
  "parser_i exampleFull = 5"
  "stack_below exampleFull = [exampleBottom]"
  by (simp_all add: exampleFull_def exampleSet_top)

text \<open>
  C2, as the claim states it, fails on a frame that is not stretchy: with \<open>barcount = 0\<close>
  below \<open>barmax = 1\<close> the bar is accepted (it is emitted with the mark \<open>braketbar\<close>) and
  \<open>barcount\<close> is still 0 afterwards.
\<close>

theorem braket_barcount_counterexample:
  "kind (stack_top (exampleSet False 3)) = ''braket'' \<and>
   \<not> reaches (barcount (stack_top (exampleSet False 3))) (barmax (stack_top (exampleSet False 3))) \<and>
   childNodes (stack_top (Bar exampleGetNext exampleAbsorb (exampleSet False 3) bar)) =
     [Token ''mo'' [(''stretchy'', BoolAttr False), (''braketbar'', BoolAttr True)] bar] \<and>
   barcount (stack_top (exampleSet False 3)) = 0 \<and>
   barcount (stack_top (Bar exampleGetNext exampleAbsorb (exampleSet False 3) bar)) = 0"
proof -
  have a: "kind (stack_top (exampleSet False 3)) = ''braket''"
    and b: "\<not> reaches (barcount (stack_top (exampleSet False 3))) (barmax (stack_top (exampleSet False 3)))"
    and c: "\<not> stretchy (stack_top (exampleSet False 3))"
    by (simp_all add: exampleSet_top)
  have e: "emitted exampleGetNext (exampleSet False 3) bar = bar"
    by (simp add: emitted_def exampleSet_top exampleGetNext_def bar_def)
  show ?thesis
    using a b by (simp add: Bar_plain_result(1) [OF a b c] e exampleSet_top)
qed

text \<open>
  C2 (amended). The frame that \<open>Braket\<close> pushes is of kind \<open>braket\<close> and carries
  \<open>barmax\<close> and \<open>barcount = 0\<close>. A delimiter accepted on a stretchy braket frame
  increments \<open>barcount\<close> by one; a delimiter accepted on a braket frame that is not
  stretchy leaves \<open>barcount\<close> as it is; both leave \<open>barmax\<close> and the kind alone. Once
  \<open>barcount\<close> has reached \<open>barmax\<close>, a further delimiter is an ordinary token: the frame
  only collects it, and the stack below is untouched.
\<close>

theorem braket_barcount:
  "stack_top (Braket parser name opn cls str bmax) =
     \<lparr>kind = ''braket'', barmax = bmax, barcount = 0, prop_open = opn, prop_close = cls,
      stretchy = str, childNodes = []\<rparr> \<and>
   (kind (stack_top parser) = ''braket'' \<and>
    \<not> reaches (barcount (stack_top parser)) (barmax (stack_top parser)) \<and>
    stretchy (stack_top parser) \<longrightarrow>
      kind (stack_top (Bar GetNext react parser name)) = ''braket'' \<and>
      barmax (stack_top (Bar GetNext react parser name)) = barmax (stack_top parser) \<and>
      barcount (stack_top (Bar GetNext react parser name)) = barcount (stack_top parser) + 1) \<and>
   (kind (stack_top parser) = ''braket'' \<and>
    \<not> reaches (barcount (stack_top parser)) (barmax (stack_top parser)) \<and>
    \<not> stretchy (stack_top parser) \<longrightarrow>
      kind (stack_top (Bar GetNext react parser name)) = ''braket'' \<and>
      barmax (stack_top (Bar GetNext react parser name)) = barmax (stack_top parser) \<and>
      barcount (stack_top (Bar GetNext react parser name)) = barcount (stack_top parser)) \<and>
   (kind (stack_top parser) = ''braket'' \<and>
    reaches (barcount (stack_top parser)) (barmax (stack_top parser)) \<longrightarrow>
      stack_top (Bar GetNext react parser name) =
        (stack_top parser)
          \<lparr>childNodes := childNodes (stack_top parser) @
             [Token ''mo'' [(''texClass'', ClassAttr ORD), (''stretchy'', BoolAttr False)]
                (if name = bar then bar else doubleBar)]\<rparr> \<and>
      stack_below (Bar GetNext react parser name) = stack_below parser)"
proof (intro conjI impI)
  show "stack_top (Braket parser name opn cls str bmax) =
     \<lparr>kind = ''braket'', barmax = bmax, barcount = 0, prop_open = opn, prop_close = cls,
      stretchy = str, childNodes = []\<rparr>"
    by (simp add: Braket_def Push_item_def)
next
  assume a: "kind (stack_top parser) = ''braket'' \<and>
    \<not> reaches (barcount (stack_top parser)) (barmax (stack_top parser)) \<and>
    stretchy (stack_top parser)"
  note top = Bar_stretchy_result(1) [of parser GetNext react name]
  show "kind (stack_top (Bar GetNext react parser name)) = ''braket''"
    using a by (simp add: top)
  show "barmax (stack_top (Bar GetNext react parser name)) = barmax (stack_top parser)"
    using a by (simp add: top)
  show "barcount (stack_top (Bar GetNext react parser name)) = barcount (stack_top parser) + 1"
    using a by (simp add: top)
next
  assume a: "kind (stack_top parser) = ''braket'' \<and>
    \<not> reaches (barcount (stack_top parser)) (barmax (stack_top parser)) \<and>
    \<not> stretchy (stack_top parser)"
  note top = Bar_plain_result(1) [of parser GetNext react name]
  show "kind (stack_top (Bar GetNext react parser name)) = ''braket''"
    using a by (simp add: top)
  show "barmax (stack_top (Bar GetNext react parser name)) = barmax (stack_top parser)"
    using a by (simp add: top)
  show "barcount (stack_top (Bar GetNext react parser name)) = barcount (stack_top parser)"
    using a by (simp add: top)
next
  assume a: "kind (stack_top parser) = ''braket'' \<and>
    reaches (barcount (stack_top parser)) (barmax (stack_top parser))"
  then have eq: "Bar GetNext react parser name =
     Push_node react (Token ''mo'' [(''texClass'', ClassAttr ORD), (''stretchy'', BoolAttr False)]
                  (if name = bar then bar else doubleBar)) parser"
    by (simp add: Bar_fallback)
  show "stack_top (Bar GetNext react parser name) =
        (stack_top parser)
          \<lparr>childNodes := childNodes (stack_top parser) @
             [Token ''mo'' [(''texClass'', ClassAttr ORD), (''stretchy'', BoolAttr False)]
                (if name = bar then bar else doubleBar)]\<rparr>"
    using a by (simp add: eq Push_node_braket_stack)
  show "stack_below (Bar GetNext react parser name) = stack_below parser"
    using a by (simp add: eq Push_node_braket_stack)
qed

theorem braket_barcount_witness:
  "barcount (stack_top (Braket exampleParser [] [123] [125] True (Finite 1))) = 0 \<and>
   barmax (stack_top (Braket exampleParser [] [123] [125] True (Finite 1))) = Finite 1 \<and>
   barcount (stack_top (Bar exampleGetNext exampleAbsorb (exampleSet True 3) bar)) = 1 \<and>
   barcount (stack_top (Bar exampleGetNext exampleAbsorb (exampleSet False 3) bar)) = 0 \<and>
   reaches (barcount (stack_top (Bar exampleGetNext exampleAbsorb (exampleSet True 3) bar)))
     (barmax (stack_top (Bar exampleGetNext exampleAbsorb (exampleSet True 3) bar))) \<and>
   stack_top (Bar exampleGetNext exampleAbsorb (Bar exampleGetNext exampleAbsorb (exampleSet True 3) bar) bar) =
     (stack_top (Bar exampleGetNext exampleAbsorb (exampleSet True 3) bar))
       \<lparr>childNodes := childNodes (stack_top (Bar exampleGetNext exampleAbsorb (exampleSet True 3) bar)) @
          [Token ''mo'' [(''texClass'', ClassAttr ORD), (''stretchy'', BoolAttr False)] bar]\<rparr>"
proof -
  let ?first = "Bar exampleGetNext exampleAbsorb (exampleSet True 3) bar"
  have a: "kind (stack_top (exampleSet True 3)) = ''braket'' \<and>
     \<not> reaches (barcount (stack_top (exampleSet True 3))) (barmax (stack_top (exampleSet True 3))) \<and>
     stretchy (stack_top (exampleSet True 3))"
    by (simp add: exampleSet_top)
  have b: "kind (stack_top (exampleSet False 3)) = ''braket'' \<and>
     \<not> reaches (barcount (stack_top (exampleSet False 3))) (barmax (stack_top (exampleSet False 3))) \<and>
     \<not> stretchy (stack_top (exampleSet False 3))"
    by (simp add: exampleSet_top)
  note created = braket_barcount [where parser = exampleParser and name = "[]" and opn = "[123]"
      and cls = "[125]" and str = True and bmax = "Finite 1", THEN conjunct1]
  note str = braket_barcount [where parser = "exampleSet True 3" and GetNext = exampleGetNext
      and react = exampleAbsorb and name = bar,
      THEN conjunct2, THEN conjunct1, rule_format, OF a]
  note plain = braket_barcount [where parser = "exampleSet False 3" and GetNext = exampleGetNext
      and react = exampleAbsorb and name = bar,
      THEN conjunct2, THEN conjunct2, THEN conjunct1, rule_format, OF b]
  have c: "kind (stack_top ?first) = ''braket'' \<and>
     reaches (barcount (stack_top ?first)) (barmax (stack_top ?first))"
    using str by (simp add: exampleSet_top)
  note full = braket_barcount [where parser = ?first and GetNext = exampleGetNext
      and react = exampleAbsorb and name = bar,
      THEN conjunct2, THEN conjunct2, THEN conjunct2, rule_format, OF c]
  show ?thesis
    using created str plain c full by (simp add: exampleSet_top)
qed

text \<open>
  C4, as the claim states it, fails on a top item of another kind whose own reaction to the
  pushed token is to finalize: \<open>Bar\<close> pushes the token, the frame pops itself, and the
  frame stack is not what it was.
\<close>

theorem Bar_fallback_token_counterexample:
  "kind (stack_top exampleSubsup) = ''subsup'' \<and>
   stack_below exampleSubsup = [exampleBottom] \<and>
   kind (stack_top (Bar exampleGetNext exampleClosing exampleSubsup bar)) = ''start'' \<and>
   stack_below (Bar exampleGetNext exampleClosing exampleSubsup bar) = []"
  by (simp add: Bar_def Let_def Push_node_def exampleSubsup_def exampleClosing_def
      exampleBottom_def)

text \<open>
  C4 (amended). When the top item is not of kind \<open>braket\<close>, or its \<open>barcount\<close> has reached
  its \<open>barmax\<close>, \<open>Bar\<close> makes exactly one push, of an \<open>mo\<close> token with \<open>texClass\<close> ORD and
  \<open>stretchy\<close> false that carries the bar character, and does nothing else: it sets no
  property and leaves the cursor and the input, the same under either condition, and no
  error is involved. On a braket item with the count exhausted the frame absorbs the token:
  the items below, the kind and every property of the top item are unchanged. On a top
  item of another kind the stack afterwards is what that item's own reaction to the token
  makes of it.
\<close>

theorem Bar_fallback_token:
  assumes "kind (stack_top parser) \<noteq> ''braket'' \<or>
           reaches (barcount (stack_top parser)) (barmax (stack_top parser))"
  shows "Bar GetNext react parser name =
           Push_node react
             (Token ''mo'' [(''texClass'', ClassAttr ORD), (''stretchy'', BoolAttr False)]
                (if name = bar then bar else doubleBar)) parser \<and>
         actions (Bar GetNext react parser name) =
           actions parser @
             [PushNode (Token ''mo'' [(''texClass'', ClassAttr ORD), (''stretchy'', BoolAttr False)]
                (if name = bar then bar else doubleBar))] \<and>
         parser_i (Bar GetNext react parser name) = parser_i parser \<and>
         parser_string (Bar GetNext react parser name) = parser_string parser \<and>
         (kind (stack_top parser) = ''braket'' \<longrightarrow>
            Bar GetNext react parser name =
              parser\<lparr>stack_top := (stack_top parser)
                        \<lparr>childNodes := childNodes (stack_top parser) @
                           [Token ''mo'' [(''texClass'', ClassAttr ORD), (''stretchy'', BoolAttr False)]
                              (if name = bar then bar else doubleBar)]\<rparr>,
                     actions := actions parser @
                       [PushNode (Token ''mo'' [(''texClass'', ClassAttr ORD), (''stretchy'', BoolAttr False)]
                          (if name = bar then bar else doubleBar))]\<rparr> \<and>
            stack_below (Bar GetNext react parser name) = stack_below parser \<and>
            kind (stack_top (Bar GetNext react parser name)) = kind (stack_top parser) \<and>
            barmax (stack_top (Bar GetNext react parser name)) = barmax (stack_top parser) \<and>
            barcount (stack_top (Bar GetNext react parser name)) = barcount (stack_top parser) \<and>
            prop_open (stack_top (Bar GetNext react parser name)) = prop_open (stack_top parser) \<and>
            prop_close (stack_top (Bar GetNext react parser name)) = prop_close (stack_top parser) \<and>
            stretchy (stack_top (Bar GetNext react parser name)) = stretchy (stack_top parser)) \<and>
         (kind (stack_top parser) \<noteq> ''braket'' \<longrightarrow>
            (stack_top (Bar GetNext react parser name), stack_below (Bar GetNext react parser name)) =
              react (Token ''mo'' [(''texClass'', ClassAttr ORD), (''stretchy'', BoolAttr False)]
                       (if name = bar then bar else doubleBar))
                (stack_top parser) (stack_below parser))"
proof -
  let ?tok = "Token ''mo'' [(''texClass'', ClassAttr ORD), (''stretchy'', BoolAttr False)]
                (if name = bar then bar else doubleBar)"
  have eq: "Bar GetNext react parser name = Push_node react ?tok parser"
    by (rule Bar_fallback [OF assms])
  have log: "actions (Bar GetNext react parser name) = actions parser @ [PushNode ?tok]"
    and cur: "parser_i (Bar GetNext react parser name) = parser_i parser"
    and inp: "parser_string (Bar GetNext react parser name) = parser_string parser"
    unfolding eq by (simp_all add: Push_node_parser)
  have absorbed: "kind (stack_top parser) = ''braket'' \<longrightarrow>
            Bar GetNext react parser name =
              parser\<lparr>stack_top := (stack_top parser)
                        \<lparr>childNodes := childNodes (stack_top parser) @ [?tok]\<rparr>,
                     actions := actions parser @ [PushNode ?tok]\<rparr> \<and>
            stack_below (Bar GetNext react parser name) = stack_below parser \<and>
            kind (stack_top (Bar GetNext react parser name)) = kind (stack_top parser) \<and>
            barmax (stack_top (Bar GetNext react parser name)) = barmax (stack_top parser) \<and>
            barcount (stack_top (Bar GetNext react parser name)) = barcount (stack_top parser) \<and>
            prop_open (stack_top (Bar GetNext react parser name)) = prop_open (stack_top parser) \<and>
            prop_close (stack_top (Bar GetNext react parser name)) = prop_close (stack_top parser) \<and>
            stretchy (stack_top (Bar GetNext react parser name)) = stretchy (stack_top parser)"
    unfolding eq by (simp add: Push_node_braket)
  have other: "kind (stack_top parser) \<noteq> ''braket'' \<longrightarrow>
            (stack_top (Bar GetNext react parser name), stack_below (Bar GetNext react parser name)) =
              react ?tok (stack_top parser) (stack_below parser)"
    unfolding eq by (simp add: Push_node_other)
  from eq log cur inp absorbed other show ?thesis by (intro conjI)
qed

theorem Bar_fallback_token_witness:
  "Bar exampleGetNext exampleClosing exampleFull bar =
     exampleFull
       \<lparr>stack_top := (stack_top exampleFull)
          \<lparr>childNodes :=
             [Token ''mo'' [(''texClass'', ClassAttr ORD), (''stretchy'', BoolAttr False)] bar]\<rparr>,
        actions := actions exampleFull @
          [PushNode (Token ''mo'' [(''texClass'', ClassAttr ORD), (''stretchy'', BoolAttr False)] bar)]\<rparr> \<and>
   stack_below (Bar exampleGetNext exampleClosing exampleFull bar) = [exampleBottom] \<and>
   barcount (stack_top (Bar exampleGetNext exampleClosing exampleFull bar)) = 1 \<and>
   actions (Bar exampleGetNext exampleAbsorb exampleParser bar) =
     [PushNode (Token ''mo'' [(''texClass'', ClassAttr ORD), (''stretchy'', BoolAttr False)] bar)] \<and>
   parser_i (Bar exampleGetNext exampleAbsorb exampleParser bar) = 0 \<and>
   stack_top (Bar exampleGetNext exampleAbsorb exampleParser bar) =
     exampleBottom
       \<lparr>childNodes :=
          [Token ''mo'' [(''texClass'', ClassAttr ORD), (''stretchy'', BoolAttr False)] bar]\<rparr>"
proof -
  have a: "kind (stack_top exampleFull) \<noteq> ''braket'' \<or>
           reaches (barcount (stack_top exampleFull)) (barmax (stack_top exampleFull))"
    by (simp add: exampleFull_top)
  have k: "kind (stack_top exampleFull) = ''braket''" by (simp add: exampleFull_top)
  have b: "kind (stack_top exampleParser) \<noteq> ''braket'' \<or>
           reaches (barcount (stack_top exampleParser)) (barmax (stack_top exampleParser))"
    by (simp add: exampleParser_def exampleBottom_def)
  have n: "kind (stack_top exampleParser) \<noteq> ''braket''"
    by (simp add: exampleParser_def exampleBottom_def)
  note full = Bar_fallback_token [OF a, of exampleGetNext exampleClosing bar]
  note start = Bar_fallback_token [OF b, of exampleGetNext exampleAbsorb bar]
  note absorbed = full [THEN conjunct2, THEN conjunct2, THEN conjunct2, THEN conjunct2,
      THEN conjunct1, rule_format, OF k]
  note other = start [THEN conjunct2, THEN conjunct2, THEN conjunct2, THEN conjunct2,
      THEN conjunct2, rule_format, OF n]
  have 1: "Bar exampleGetNext exampleClosing exampleFull bar =
     exampleFull
       \<lparr>stack_top := (stack_top exampleFull)
          \<lparr>childNodes :=
             [Token ''mo'' [(''texClass'', ClassAttr ORD), (''stretchy'', BoolAttr False)] bar]\<rparr>,
        actions := actions exampleFull @
          [PushNode (Token ''mo'' [(''texClass'', ClassAttr ORD), (''stretchy'', BoolAttr False)] bar)]\<rparr>"
    using absorbed [THEN conjunct1] by (simp add: exampleFull_top)
  have 2: "stack_below (Bar exampleGetNext exampleClosing exampleFull bar) = [exampleBottom]"
    using absorbed [THEN conjunct2, THEN conjunct1] by (simp add: exampleFull_top)
  have 3: "barcount (stack_top (Bar exampleGetNext exampleClosing exampleFull bar)) = 1"
    using absorbed by (simp add: exampleFull_top)
  have 4: "actions (Bar exampleGetNext exampleAbsorb exampleParser bar) =
     [PushNode (Token ''mo'' [(''texClass'', ClassAttr ORD), (''stretchy'', BoolAttr False)] bar)]"
    using start [THEN conjunct2, THEN conjunct1] by (simp add: exampleParser_def)
  have 5: "parser_i (Bar exampleGetNext exampleAbsorb exampleParser bar) = 0"
    using start [THEN conjunct2, THEN conjunct2, THEN conjunct1] by (simp add: exampleParser_def)
  have 6: "stack_top (Bar exampleGetNext exampleAbsorb exampleParser bar) =
     exampleBottom
       \<lparr>childNodes :=
          [Token ''mo'' [(''texClass'', ClassAttr ORD), (''stretchy'', BoolAttr False)] bar]\<rparr>"
    using other by (simp add: exampleParser_def exampleBottom_def exampleAbsorb_def)
  from 1 2 3 4 5 6 show ?thesis by (intro conjI)
qed

text \<open>
  C5. On a top item of kind \<open>braket\<close> with \<open>barcount\<close> below \<open>barmax\<close> and
  \<open>stretchy\<close> true, \<open>Bar\<close> does four things in this order: it pushes a \<open>TeXAtom\<close> of
  class CLOSE, sets \<open>barcount\<close> to one more, pushes the \<open>mo\<close> token of the delimiter with
  \<open>stretchy\<close> and \<open>braketbar\<close> true, and pushes a \<open>TeXAtom\<close> of class OPEN. The frame
  has collected exactly these three nodes, and \<open>barcount\<close> is one more than before.
\<close>

theorem Bar_stretchy_three_items:
  assumes "kind (stack_top parser) = ''braket''"
    and "\<not> reaches (barcount (stack_top parser)) (barmax (stack_top parser))"
    and "stretchy (stack_top parser)"
  shows "actions (Bar GetNext react parser name) =
           actions parser @
             [PushNode (Node ''TeXAtom'' [] [(''texClass'', ClassAttr CLOSE)]),
              SetProperty ''barcount'' (barcount (stack_top parser) + 1),
              PushNode (Token ''mo'' [(''stretchy'', BoolAttr True), (''braketbar'', BoolAttr True)]
                          (emitted GetNext parser name)),
              PushNode (Node ''TeXAtom'' [] [(''texClass'', ClassAttr OPEN)])] \<and>
         childNodes (stack_top (Bar GetNext react parser name)) =
           childNodes (stack_top parser) @
             [Node ''TeXAtom'' [] [(''texClass'', ClassAttr CLOSE)],
              Token ''mo'' [(''stretchy'', BoolAttr True), (''braketbar'', BoolAttr True)]
                (emitted GetNext parser name),
              Node ''TeXAtom'' [] [(''texClass'', ClassAttr OPEN)]] \<and>
         barcount (stack_top (Bar GetNext react parser name)) = barcount (stack_top parser) + 1"
  by (simp add: Bar_stretchy_result [OF assms])

theorem Bar_stretchy_three_items_witness:
  "actions (Bar exampleGetNext exampleAbsorb (exampleSet True 3) bar) =
     actions (exampleSet True 3) @
       [PushNode (Node ''TeXAtom'' [] [(''texClass'', ClassAttr CLOSE)]),
        SetProperty ''barcount'' 1,
        PushNode (Token ''mo'' [(''stretchy'', BoolAttr True), (''braketbar'', BoolAttr True)] bar),
        PushNode (Node ''TeXAtom'' [] [(''texClass'', ClassAttr OPEN)])] \<and>
   barcount (stack_top (Bar exampleGetNext exampleAbsorb (exampleSet True 3) bar)) = 1"
proof -
  have a: "kind (stack_top (exampleSet True 3)) = ''braket''"
    and b: "\<not> reaches (barcount (stack_top (exampleSet True 3))) (barmax (stack_top (exampleSet True 3)))"
    and c: "stretchy (stack_top (exampleSet True 3))"
    by (simp_all add: exampleSet_top)
  have e: "emitted exampleGetNext (exampleSet True 3) bar = bar"
    by (simp add: emitted_def exampleSet_top exampleGetNext_def bar_def)
  from Bar_stretchy_three_items [OF a b c, of exampleGetNext exampleAbsorb bar]
  show ?thesis by (simp add: e exampleSet_top)
qed

text \<open>
  C10. When \<open>Bar\<close> runs for the character \<open>|\<close> on a braket frame with \<open>barcount\<close>
  below \<open>barmax\<close> and the next character of the input is \<open>|\<close> too, it moves the cursor
  one past that character and emits one delimiter, the double bar U+2225: the frame
  collects a single \<open>mo\<close> token (between its two spacers when stretchy), \<open>barcount\<close>
  grows as for one delimiter, and the result is that of one run of the handler for a double
  bar at the moved cursor. On the fallback path the cursor stays and the one thing pushed
  is the token of the single \<open>|\<close>, whatever follows; a braket frame whose count is
  exhausted collects that token.
\<close>

theorem Bar_coalesces_double_bar:
  "(kind (stack_top parser) = ''braket'' \<and>
    \<not> reaches (barcount (stack_top parser)) (barmax (stack_top parser)) \<and>
    GetNext (parser_string parser) (parser_i parser) = (bar, i1) \<longrightarrow>
      parser_i (Bar GetNext react parser bar) = i1 + 1 \<and>
      childNodes (stack_top (Bar GetNext react parser bar)) =
        childNodes (stack_top parser) @
          (if stretchy (stack_top parser)
           then [Node ''TeXAtom'' [] [(''texClass'', ClassAttr CLOSE)],
                 Token ''mo'' [(''stretchy'', BoolAttr True), (''braketbar'', BoolAttr True)] doubleBar,
                 Node ''TeXAtom'' [] [(''texClass'', ClassAttr OPEN)]]
           else [Token ''mo'' [(''stretchy'', BoolAttr False), (''braketbar'', BoolAttr True)]
                   doubleBar]) \<and>
      barcount (stack_top (Bar GetNext react parser bar)) =
        barcount (stack_top parser) + (if stretchy (stack_top parser) then 1 else 0) \<and>
      (\<forall>name2. name2 \<noteq> bar \<longrightarrow>
         Bar GetNext react parser bar = Bar GetNext react (parser\<lparr>parser_i := i1 + 1\<rparr>) name2)) \<and>
   (kind (stack_top parser) \<noteq> ''braket'' \<or>
    reaches (barcount (stack_top parser)) (barmax (stack_top parser)) \<longrightarrow>
      parser_i (Bar GetNext react parser bar) = parser_i parser \<and>
      actions (Bar GetNext react parser bar) =
        actions parser @
          [PushNode (Token ''mo'' [(''texClass'', ClassAttr ORD), (''stretchy'', BoolAttr False)]
             bar)]) \<and>
   (kind (stack_top parser) = ''braket'' \<and>
    reaches (barcount (stack_top parser)) (barmax (stack_top parser)) \<longrightarrow>
      childNodes (stack_top (Bar GetNext react parser bar)) =
        childNodes (stack_top parser) @
          [Token ''mo'' [(''texClass'', ClassAttr ORD), (''stretchy'', BoolAttr False)] bar])"
proof (intro conjI impI allI)
  assume a: "kind (stack_top parser) = ''braket'' \<and>
    \<not> reaches (barcount (stack_top parser)) (barmax (stack_top parser)) \<and>
    GetNext (parser_string parser) (parser_i parser) = (bar, i1)"
  then have k: "kind (stack_top parser) = ''braket''"
    and r: "\<not> reaches (barcount (stack_top parser)) (barmax (stack_top parser))"
    by simp_all
  from a have em: "emitted GetNext parser bar = doubleBar"
    and cu: "cursorAfter GetNext parser bar = i1 + 1"
    by (simp_all add: emitted_def cursorAfter_def)
  show "parser_i (Bar GetNext react parser bar) = i1 + 1"
    using cu
    by (cases "stretchy (stack_top parser)")
       (simp_all add: Bar_plain_result(3) [OF k r] Bar_stretchy_result(3) [OF k r])
  show "childNodes (stack_top (Bar GetNext react parser bar)) =
        childNodes (stack_top parser) @
          (if stretchy (stack_top parser)
           then [Node ''TeXAtom'' [] [(''texClass'', ClassAttr CLOSE)],
                 Token ''mo'' [(''stretchy'', BoolAttr True), (''braketbar'', BoolAttr True)] doubleBar,
                 Node ''TeXAtom'' [] [(''texClass'', ClassAttr OPEN)]]
           else [Token ''mo'' [(''stretchy'', BoolAttr False), (''braketbar'', BoolAttr True)]
                   doubleBar])"
    using em
    by (cases "stretchy (stack_top parser)")
       (simp_all add: Bar_plain_result(1) [OF k r] Bar_stretchy_result(1) [OF k r])
  show "barcount (stack_top (Bar GetNext react parser bar)) =
        barcount (stack_top parser) + (if stretchy (stack_top parser) then 1 else 0)"
    by (cases "stretchy (stack_top parser)")
       (simp_all add: Bar_plain_result(1) [OF k r] Bar_stretchy_result(1) [OF k r])
  fix name2 :: jsstring
  assume n2: "name2 \<noteq> bar"
  let ?moved = "parser\<lparr>parser_i := i1 + 1\<rparr>"
  have em2: "emitted GetNext ?moved name2 = doubleBar"
    and cu2: "cursorAfter GetNext ?moved name2 = i1 + 1"
    using n2 by (simp_all add: emitted_def cursorAfter_def)
  have k2: "kind (stack_top ?moved) = ''braket''"
    and r2: "\<not> reaches (barcount (stack_top ?moved)) (barmax (stack_top ?moved))"
    using k r by simp_all
  show "Bar GetNext react parser bar = Bar GetNext react ?moved name2"
  proof (cases "stretchy (stack_top parser)")
    case True
    then have s2: "stretchy (stack_top ?moved)" by simp
    show ?thesis
      unfolding Bar_stretchy [OF k r True] Bar_stretchy [OF k2 r2 s2] em cu em2 cu2 by simp
  next
    case False
    then have s2: "\<not> stretchy (stack_top ?moved)" by simp
    show ?thesis
      unfolding Bar_plain [OF k r False] Bar_plain [OF k2 r2 s2] em cu em2 cu2 by simp
  qed
next
  assume a: "kind (stack_top parser) \<noteq> ''braket'' \<or>
    reaches (barcount (stack_top parser)) (barmax (stack_top parser))"
  show "parser_i (Bar GetNext react parser bar) = parser_i parser"
    using Bar_fallback [OF a, of GetNext react bar] by (simp add: Push_node_parser)
  show "actions (Bar GetNext react parser bar) =
        actions parser @
          [PushNode (Token ''mo'' [(''texClass'', ClassAttr ORD), (''stretchy'', BoolAttr False)]
             bar)]"
    using Bar_fallback [OF a, of GetNext react bar] by (simp add: Push_node_parser)
next
  assume a: "kind (stack_top parser) = ''braket'' \<and>
    reaches (barcount (stack_top parser)) (barmax (stack_top parser))"
  then have f: "kind (stack_top parser) \<noteq> ''braket'' \<or>
    reaches (barcount (stack_top parser)) (barmax (stack_top parser))"
    by simp
  show "childNodes (stack_top (Bar GetNext react parser bar)) =
        childNodes (stack_top parser) @
          [Token ''mo'' [(''texClass'', ClassAttr ORD), (''stretchy'', BoolAttr False)] bar]"
    using a Bar_fallback [OF f, of GetNext react bar] by (simp add: Push_node_braket_stack)
qed

theorem Bar_coalesces_double_bar_witness:
  "parser_i (Bar exampleGetNext exampleAbsorb (exampleSet True 5) bar) = 6 \<and>
   childNodes (stack_top (Bar exampleGetNext exampleAbsorb (exampleSet True 5) bar)) =
     [Node ''TeXAtom'' [] [(''texClass'', ClassAttr CLOSE)],
      Token ''mo'' [(''stretchy'', BoolAttr True), (''braketbar'', BoolAttr True)] doubleBar,
      Node ''TeXAtom'' [] [(''texClass'', ClassAttr OPEN)]] \<and>
   barcount (stack_top (Bar exampleGetNext exampleAbsorb (exampleSet True 5) bar)) = 1 \<and>
   parser_i (Bar exampleGetNext exampleAbsorb exampleParser bar) = 0 \<and>
   actions (Bar exampleGetNext exampleAbsorb exampleParser bar) =
     [PushNode (Token ''mo'' [(''texClass'', ClassAttr ORD), (''stretchy'', BoolAttr False)] bar)] \<and>
   childNodes (stack_top (Bar exampleGetNext exampleAbsorb exampleFull bar)) =
     [Token ''mo'' [(''texClass'', ClassAttr ORD), (''stretchy'', BoolAttr False)] bar]"
proof -
  have a: "kind (stack_top (exampleSet True 5)) = ''braket'' \<and>
     \<not> reaches (barcount (stack_top (exampleSet True 5))) (barmax (stack_top (exampleSet True 5))) \<and>
     exampleGetNext (parser_string (exampleSet True 5)) (parser_i (exampleSet True 5)) = (bar, 5)"
    by (simp add: exampleSet_top exampleGetNext_def bar_def)
  have b: "kind (stack_top exampleParser) \<noteq> ''braket'' \<or>
           reaches (barcount (stack_top exampleParser)) (barmax (stack_top exampleParser))"
    by (simp add: exampleParser_def exampleBottom_def)
  have c: "kind (stack_top exampleFull) = ''braket'' \<and>
           reaches (barcount (stack_top exampleFull)) (barmax (stack_top exampleFull))"
    by (simp add: exampleFull_top)
  note double = Bar_coalesces_double_bar [of "exampleSet True 5" exampleGetNext 5 exampleAbsorb,
      THEN conjunct1, rule_format, OF a]
  note single = Bar_coalesces_double_bar [of exampleParser exampleGetNext 0 exampleAbsorb,
      THEN conjunct2, THEN conjunct1, rule_format, OF b]
  note full = Bar_coalesces_double_bar [of exampleFull exampleGetNext 0 exampleAbsorb,
      THEN conjunct2, THEN conjunct2, rule_format, OF c]
  have "parser_i (Bar exampleGetNext exampleAbsorb (exampleSet True 5) bar) = 6"
    using double [THEN conjunct1] by simp
  moreover have "childNodes (stack_top (Bar exampleGetNext exampleAbsorb (exampleSet True 5) bar)) =
     [Node ''TeXAtom'' [] [(''texClass'', ClassAttr CLOSE)],
      Token ''mo'' [(''stretchy'', BoolAttr True), (''braketbar'', BoolAttr True)] doubleBar,
      Node ''TeXAtom'' [] [(''texClass'', ClassAttr OPEN)]]"
    using double [THEN conjunct2, THEN conjunct1] by (simp add: exampleSet_top)
  moreover have "barcount (stack_top (Bar exampleGetNext exampleAbsorb (exampleSet True 5) bar)) = 1"
    using double [THEN conjunct2, THEN conjunct2, THEN conjunct1] by (simp add: exampleSet_top)
  moreover have "parser_i (Bar exampleGetNext exampleAbsorb exampleParser bar) = 0"
    using single [THEN conjunct1] by (simp add: exampleParser_def)
  moreover have "actions (Bar exampleGetNext exampleAbsorb exampleParser bar) =
     [PushNode (Token ''mo'' [(''texClass'', ClassAttr ORD), (''stretchy'', BoolAttr False)] bar)]"
    using single [THEN conjunct2] by (simp add: exampleParser_def)
  moreover have "childNodes (stack_top (Bar exampleGetNext exampleAbsorb exampleFull bar)) =
     [Token ''mo'' [(''texClass'', ClassAttr ORD), (''stretchy'', BoolAttr False)] bar]"
    using full by (simp add: exampleFull_top)
  ultimately show ?thesis by (intro conjI)
qed

text \<open>
  C6. For an item of kind \<open>close\<close>, \<open>checkItem\<close> of a braket item returns the pop
  signal \<open>true\<close> with a single item of kind \<open>mml\<close> that holds the subtree \<open>toMml\<close>
  builds. On a stretchy frame that subtree is the fenced group of the open delimiter, the
  inner content and the close delimiter; otherwise it is an \<open>mrow\<close> of exactly three
  children, an \<open>mo\<close> token of the open delimiter, the inner content and an \<open>mo\<close> token
  of the close delimiter, both tokens with \<open>fence\<close> true, \<open>stretchy\<close> false and
  \<open>symmetric\<close> true.
\<close>

theorem checkItem_close:
  assumes "kind item = ''close''"
  shows "checkItem fenced super_toMml super_checkItem this item =
           (this, Some [mmlItem (toMml fenced super_toMml this)], True) \<and>
         kind (mmlItem (toMml fenced super_toMml this)) = ''mml'' \<and>
         childNodes (mmlItem (toMml fenced super_toMml this)) = [toMml fenced super_toMml this] \<and>
         (stretchy this \<longrightarrow>
            toMml fenced super_toMml this =
              fenced (prop_open this) (super_toMml this) (prop_close this)) \<and>
         (\<not> stretchy this \<longrightarrow>
            (\<exists>openAttrs closeAttrs attrs.
               toMml fenced super_toMml this =
                 Node ''mrow''
                   [Token ''mo'' openAttrs (prop_open this), super_toMml this,
                    Token ''mo'' closeAttrs (prop_close this)] attrs \<and>
               attributeOf ''fence'' openAttrs = Some (BoolAttr True) \<and>
               attributeOf ''stretchy'' openAttrs = Some (BoolAttr False) \<and>
               attributeOf ''symmetric'' openAttrs = Some (BoolAttr True) \<and>
               attributeOf ''fence'' closeAttrs = Some (BoolAttr True) \<and>
               attributeOf ''stretchy'' closeAttrs = Some (BoolAttr False) \<and>
               attributeOf ''symmetric'' closeAttrs = Some (BoolAttr True)))"
  using assms by (simp add: checkItem_def toMml_def mmlItem_def attributeOf_def Let_def)

theorem checkItem_close_witness:
  "checkItem exampleFenced exampleToMml exampleCheckItem (stack_top (exampleSet True 3))
     (exampleBottom\<lparr>kind := ''close''\<rparr>) =
     (stack_top (exampleSet True 3),
      Some [mmlItem (Node ''mrow''
        [Token ''mo'' [] [123], Node ''inferredMrow'' [] [], Token ''mo'' [] [125]] [])],
      True)"
proof -
  have a: "kind (exampleBottom\<lparr>kind := ''close''\<rparr>) = ''close''" by simp
  have s: "stretchy (stack_top (exampleSet True 3))" by (simp add: exampleSet_top)
  note inst = checkItem_close [OF a, of exampleFenced exampleToMml exampleCheckItem
      "stack_top (exampleSet True 3)"]
  from inst [THEN conjunct1]
    inst [THEN conjunct2, THEN conjunct2, THEN conjunct2, THEN conjunct1, rule_format, OF s]
  show ?thesis by (simp add: exampleSet_top exampleFenced_def exampleToMml_def)
qed

end
